theory Spec2Isabelle
  imports Main
begin

section \<open>Data model\<close>

text \<open>
  The tables of the migrations (\<^verbatim>\<open>clients\<close>, \<^verbatim>\<open>services\<close>, \<^verbatim>\<open>piece_counters\<close>,
  \<^verbatim>\<open>piece_counter_history\<close>) as lists of rows in insertion order. The columns are those of
  the schema the application writes to (\<^verbatim>\<open>user_id\<close>, \<^verbatim>\<open>client_name\<close>), with the row
  types of \<^verbatim>\<open>lib/supabase.ts\<close>; \<^verbatim>\<open>services.status\<close> is kept as nullable text, as the table
  declares it.

  A UUID is a natural number, a timestamp is a number of seconds (UTC), a date a number of
  days, and a \<^verbatim>\<open>DECIMAL(10,2)\<close> amount is an integer number of hundredths.
\<close>

type_synonym uuid = nat

type_synonym timestamp = nat

type_synonym date = nat

type_synonym money = int

datatype error =
    NotAuthenticated
  | NotNullViolation
  | ForeignKeyViolation
  | UniqueViolation
  | CheckViolation
  | NumericValueOutOfRange
  | RlsViolation

record client =
  cl_id :: uuid
  cl_user_id :: uuid
  cl_name :: string
  cl_phone :: "string option"
  cl_email :: "string option"
  cl_is_favorite :: bool
  cl_total_spent :: money
  cl_last_service_date :: "date option"
  cl_notes :: "string option"
  cl_created_at :: timestamp
  cl_updated_at :: timestamp

record service =
  sv_id :: uuid
  sv_user_id :: uuid
  sv_client_id :: uuid
  sv_client_name :: string
  sv_description :: string
  sv_value :: money
  sv_delivery_date :: "date option"
  sv_status :: "string option"
  sv_notes :: "string option"
  sv_created_at :: timestamp
  sv_updated_at :: timestamp

record piece_counter =
  pc_id :: uuid
  pc_user_id :: uuid
  pc_client_id :: uuid
  pc_client_name :: string
  pc_total_pieces :: int
  pc_created_at :: timestamp
  pc_updated_at :: timestamp

record piece_counter_history_row =
  h_id :: uuid
  h_user_id :: uuid
  h_counter_id :: uuid
  h_client_name :: string
  h_pieces_added :: int
  h_description :: "string option"
  h_created_at :: timestamp

text \<open>\<^verbatim>\<open>users\<close> holds the identifiers of \<^verbatim>\<open>auth.users\<close>, the target of every
  \<^verbatim>\<open>user_id\<close> foreign key.\<close>

record db =
  users :: "uuid list"
  clients :: "client list"
  services :: "service list"
  piece_counters :: "piece_counter list"
  piece_counter_history :: "piece_counter_history_row list"

section \<open>SQL expressions\<close>

text \<open>
  \<^verbatim>\<open>LOWER\<close> is PostgreSQL's own function and follows the locale of the database; it is
  not defined in the repository. The functions that use it take it as their first argument
  \<open>LOWER\<close>, and every general property below holds for any function in its place.
\<close>

text \<open>\<^verbatim>\<open>SUM\<close> and \<^verbatim>\<open>MAX\<close> are NULL over no rows; \<^verbatim>\<open>COALESCE\<close> takes the first non-NULL
  argument.\<close>

definition sql_sum :: "int list \<Rightarrow> int option" where
  "sql_sum xs = (if xs = [] then None else Some (sum_list xs))"

fun sql_max :: "nat list \<Rightarrow> nat option" where
  "sql_max [] = None"
| "sql_max (x # xs) = (case sql_max xs of None \<Rightarrow> Some x | Some m \<Rightarrow> Some (max x m))"

definition coalesce :: "'a option \<Rightarrow> 'a \<Rightarrow> 'a" where
  "coalesce x y = (case x of Some v \<Rightarrow> v | None \<Rightarrow> y)"

definition coalesce_null :: "'a option \<Rightarrow> 'a option \<Rightarrow> 'a option" where
  "coalesce_null x y = (case x of Some v \<Rightarrow> Some v | None \<Rightarrow> y)"

text \<open>\<^verbatim>\<open>created_at::date\<close>, in UTC.\<close>

definition date_of :: "timestamp \<Rightarrow> date" where
  "date_of t = t div 86400"

text \<open>The values a \<^verbatim>\<open>DECIMAL(10,2)\<close> column and an \<^verbatim>\<open>INTEGER\<close> column can hold; storing
  anything else raises \<^verbatim>\<open>numeric_value_out_of_range\<close>.\<close>

definition decimal_10_2_ok :: "money \<Rightarrow> bool" where
  "decimal_10_2_ok v = (- 10000000000 < v \<and> v < 10000000000)"

definition int4_ok :: "int \<Rightarrow> bool" where
  "int4_ok v = (- 2147483648 \<le> v \<and> v \<le> 2147483647)"

text \<open>\<^verbatim>\<open>CHECK (status IN ('progress', 'delivered', 'paid'))\<close>: a CHECK constraint rejects a row
  only when its expression is false, so a NULL status passes.\<close>

definition status_check :: "string option \<Rightarrow> bool" where
  "status_check st =
     (case st of None \<Rightarrow> True
      | Some s \<Rightarrow> s = ''progress'' \<or> s = ''delivered'' \<or> s = ''paid'')"

section \<open>Identity resolution\<close>

text \<open>
  \<^verbatim>\<open>INSERT INTO public.clients (user_id, name) VALUES (p_user_id, p_client_name)\<close>: every
  other column takes its default. \<open>new_id\<close> is the value \<^verbatim>\<open>gen_random_uuid()\<close> yields and
  \<open>now\<close> the value of \<^verbatim>\<open>NOW()\<close>.
\<close>

definition insert_client :: "uuid \<Rightarrow> timestamp \<Rightarrow> uuid \<Rightarrow> string \<Rightarrow> db \<Rightarrow> error + db" where
  "insert_client new_id now p_user_id p_client_name d =
     (if new_id \<in> cl_id ` set (clients d) then Inl UniqueViolation
      else if p_user_id \<in> set (users d) then
        Inr (d\<lparr>clients := clients d @
          [\<lparr>cl_id = new_id, cl_user_id = p_user_id, cl_name = p_client_name,
            cl_phone = None, cl_email = None, cl_is_favorite = False,
            cl_total_spent = 0, cl_last_service_date = None, cl_notes = None,
            cl_created_at = now, cl_updated_at = now\<rparr>]\<rparr>)
      else Inl ForeignKeyViolation)"

text \<open>
  \<^verbatim>\<open>get_or_create_client(p_user_id, p_client_name)\<close>, with PostgreSQL's \<^verbatim>\<open>LOWER\<close> as
  the argument \<open>LOWER\<close>. The \<^verbatim>\<open>SELECT ... LIMIT 1\<close> takes the first matching row in
  table order. The function is one statement of its caller: when the insert fails nothing
  is written.
\<close>

definition get_or_create_client ::
  "(string \<Rightarrow> string) \<Rightarrow> uuid \<Rightarrow> timestamp \<Rightarrow> uuid \<Rightarrow> string \<Rightarrow> db \<Rightarrow>
     (error + uuid) \<times> db" where
  "get_or_create_client LOWER new_id now p_user_id p_client_name d =
     (case find (\<lambda>c. cl_user_id c = p_user_id \<and> LOWER (cl_name c) = LOWER p_client_name)
             (clients d) of
        Some c \<Rightarrow> (Inr (cl_id c), d)
      | None \<Rightarrow>
          (case insert_client new_id now p_user_id p_client_name d of
             Inl e \<Rightarrow> (Inl e, d)
           | Inr d' \<Rightarrow> (Inr new_id, d')))"

text \<open>
  \<^verbatim>\<open>get_or_create_piece_counter(p_user_id, p_client_id, p_client_name)\<close>: exact match on
  (account, client); a new counter starts at \<^verbatim>\<open>total_pieces = 0\<close>.
\<close>

definition insert_piece_counter ::
  "uuid \<Rightarrow> timestamp \<Rightarrow> uuid \<Rightarrow> uuid \<Rightarrow> string \<Rightarrow> db \<Rightarrow> error + db" where
  "insert_piece_counter new_id now p_user_id p_client_id p_client_name d =
     (if new_id \<in> pc_id ` set (piece_counters d) then Inl UniqueViolation
      else if p_user_id \<in> set (users d) \<and> p_client_id \<in> cl_id ` set (clients d) then
        Inr (d\<lparr>piece_counters := piece_counters d @
          [\<lparr>pc_id = new_id, pc_user_id = p_user_id, pc_client_id = p_client_id,
            pc_client_name = p_client_name, pc_total_pieces = 0,
            pc_created_at = now, pc_updated_at = now\<rparr>]\<rparr>)
      else Inl ForeignKeyViolation)"

definition get_or_create_piece_counter ::
  "uuid \<Rightarrow> timestamp \<Rightarrow> uuid \<Rightarrow> uuid \<Rightarrow> string \<Rightarrow> db \<Rightarrow> (error + uuid) \<times> db" where
  "get_or_create_piece_counter new_id now p_user_id p_client_id p_client_name d =
     (case find (\<lambda>k. pc_user_id k = p_user_id \<and> pc_client_id k = p_client_id)
             (piece_counters d) of
        Some k \<Rightarrow> (Inr (pc_id k), d)
      | None \<Rightarrow>
          (case insert_piece_counter new_id now p_user_id p_client_id p_client_name d of
             Inl e \<Rightarrow> (Inl e, d)
           | Inr d' \<Rightarrow> (Inr new_id, d')))"

section \<open>Client statistics\<close>

text \<open>
  The trigger function \<^verbatim>\<open>update_client_stats()\<close>, fired \<^verbatim>\<open>AFTER INSERT OR UPDATE OR DELETE
  ON services FOR EACH ROW\<close>. \<open>NEW\<close> is absent on DELETE and \<open>OLD\<close> on INSERT. The client
  whose row is rewritten is \<^verbatim>\<open>COALESCE(NEW.client_id, OLD.client_id)\<close>; the variant that
  branches on \<^verbatim>\<open>TG_OP\<close> takes \<^verbatim>\<open>NEW.client_id\<close> on INSERT and UPDATE and
  \<^verbatim>\<open>OLD.client_id\<close> on DELETE, which is the same client. Both sub-selects scan the whole
  \<^verbatim>\<open>services\<close> table as it is after the change. Storing a total that does not fit
  \<^verbatim>\<open>DECIMAL(10,2)\<close> raises, which aborts the statement that fired the trigger. In the
  schema the application writes to the function is \<^verbatim>\<open>SECURITY DEFINER\<close>, so the policies
  on \<^verbatim>\<open>clients\<close> do not filter its \<^verbatim>\<open>UPDATE\<close>; the same holds for the two
  \<^verbatim>\<open>get_or_create\<close> functions and the piece counter trigger.
\<close>

definition paid_total :: "uuid \<Rightarrow> service list \<Rightarrow> money" where
  "paid_total cid ss =
     coalesce (sql_sum (map sv_value
       (filter (\<lambda>s. sv_client_id s = cid \<and> sv_status s = Some ''paid'') ss))) 0"

definition last_created_date :: "uuid \<Rightarrow> service list \<Rightarrow> date option" where
  "last_created_date cid ss =
     sql_max (map (\<lambda>s. date_of (sv_created_at s)) (filter (\<lambda>s. sv_client_id s = cid) ss))"

definition update_client_stats ::
  "timestamp \<Rightarrow> service option \<Rightarrow> service option \<Rightarrow> db \<Rightarrow> error + db" where
  "update_client_stats now NEW OLD d =
     (case coalesce_null (map_option sv_client_id NEW) (map_option sv_client_id OLD) of
        None \<Rightarrow> Inr d
      | Some cid \<Rightarrow>
          (if cid \<in> cl_id ` set (clients d) \<and> \<not> decimal_10_2_ok (paid_total cid (services d))
           then Inl NumericValueOutOfRange
           else Inr (d\<lparr>clients :=
             map (\<lambda>c. if cl_id c = cid
                       then c\<lparr>cl_total_spent := paid_total cid (services d),
                              cl_last_service_date := last_created_date cid (services d),
                              cl_updated_at := now\<rparr>
                       else c) (clients d)\<rparr>)))"

section \<open>Writes to the services table\<close>

text \<open>
  A column of an insert payload is left out (it takes its default), NULL, or given.
  For the columns that are \<^verbatim>\<open>NOT NULL\<close> without a default, leaving the column out and
  giving NULL fail alike, so those are \<open>option\<close>s.
\<close>

datatype 'a field = Omitted | Null | Given 'a

record services_payload =
  ins_user_id :: "uuid option"
  ins_client_id :: "uuid option"
  ins_client_name :: "string option"
  ins_description :: "string option"
  ins_value :: "money option"
  ins_delivery_date :: "date option"
  ins_status :: "string field"

text \<open>
  \<^verbatim>\<open>INSERT INTO services ... RETURNING *\<close> as the role \<open>auth\<close> (the value of
  \<^verbatim>\<open>auth.uid()\<close>, absent for an anonymous request). In order: the value is coerced to
  \<^verbatim>\<open>DECIMAL(10,2)\<close>, the policy \<^verbatim>\<open>WITH CHECK (auth.uid() = user_id)\<close>, the
  \<^verbatim>\<open>NOT NULL\<close> columns, the \<^verbatim>\<open>CHECK\<close> on status, the primary key, the foreign keys, and
  the trigger. The table of this schema has no constraint on the sign of \<^verbatim>\<open>value\<close>.
  A failure at any step leaves the database unchanged.
\<close>

definition insert_service ::
  "uuid option \<Rightarrow> uuid \<Rightarrow> timestamp \<Rightarrow> services_payload \<Rightarrow> db \<Rightarrow> error + service \<times> db" where
  "insert_service auth new_id now p d =
     (if (case ins_value p of Some v \<Rightarrow> \<not> decimal_10_2_ok v | None \<Rightarrow> False)
      then Inl NumericValueOutOfRange
      else if auth = None then Inl RlsViolation
      else if ins_user_id p = auth then
        (case ins_user_id p of None \<Rightarrow> Inl NotNullViolation | Some uid \<Rightarrow>
         (case ins_client_id p of None \<Rightarrow> Inl NotNullViolation | Some cid \<Rightarrow>
         (case ins_client_name p of None \<Rightarrow> Inl NotNullViolation | Some cname \<Rightarrow>
         (case ins_description p of None \<Rightarrow> Inl NotNullViolation | Some descr \<Rightarrow>
         (case ins_value p of None \<Rightarrow> Inl NotNullViolation | Some v \<Rightarrow>
           (let st = (case ins_status p of Omitted \<Rightarrow> Some ''progress''
                      | Null \<Rightarrow> None | Given s \<Rightarrow> Some s);
                row = \<lparr>sv_id = new_id, sv_user_id = uid, sv_client_id = cid,
                       sv_client_name = cname, sv_description = descr, sv_value = v,
                       sv_delivery_date = ins_delivery_date p, sv_status = st,
                       sv_notes = None, sv_created_at = now, sv_updated_at = now\<rparr>
            in if status_check st then
                 (if new_id \<in> sv_id ` set (services d) then Inl UniqueViolation
                  else if uid \<in> set (users d) \<and> cid \<in> cl_id ` set (clients d) then
                    (case update_client_stats now (Some row) None
                            (d\<lparr>services := services d @ [row]\<rparr>) of
                       Inl e \<Rightarrow> Inl e
                     | Inr d' \<Rightarrow> Inr (row, d'))
                  else Inl ForeignKeyViolation)
               else Inl CheckViolation))))))
      else Inl RlsViolation)"

text \<open>
  The other schema file (\<^verbatim>\<open>20250122000001_costureira_pro_schema.sql\<close>) declares
  \<^verbatim>\<open>value DECIMAL(10,2) NOT NULL CHECK (value >= 0)\<close> on its own \<^verbatim>\<open>services\<close> table, whose
  owner column is \<^verbatim>\<open>profile_id\<close> and which has no \<^verbatim>\<open>client_name\<close>.
\<close>

definition pro_schema_value_check :: "money \<Rightarrow> bool" where
  "pro_schema_value_check v = (v \<ge> 0)"

text \<open>
  \<^verbatim>\<open>UPDATE services SET ... WHERE id = sid\<close> as the role \<open>auth\<close>; the policy
  \<^verbatim>\<open>USING (auth.uid() = user_id)\<close> hides the rows of other accounts, and the primary key
  makes the matching row unique. A column of the patch that is \<open>None\<close> is not assigned.
  \<open>touch\<close> says whether the schema has the \<^verbatim>\<open>BEFORE UPDATE\<close> trigger
  \<^verbatim>\<open>update_updated_at_column()\<close> on the table (two of the schema files declare it).
\<close>

record services_patch =
  upd_client_id :: "uuid option"
  upd_client_name :: "string option"
  upd_description :: "string option"
  upd_value :: "money option"
  upd_status :: "string option option"

definition visible_service :: "uuid option \<Rightarrow> uuid \<Rightarrow> service \<Rightarrow> bool" where
  "visible_service auth sid s = (sv_id s = sid \<and> Some (sv_user_id s) = auth)"

definition update_service ::
  "bool \<Rightarrow> uuid option \<Rightarrow> timestamp \<Rightarrow> uuid \<Rightarrow> services_patch \<Rightarrow> db \<Rightarrow> error + db" where
  "update_service touch auth now sid p d =
     (case find (visible_service auth sid) (services d) of
        None \<Rightarrow> Inr d
      | Some old \<Rightarrow>
          (let new = old\<lparr>sv_client_id := coalesce (upd_client_id p) (sv_client_id old),
                         sv_client_name := coalesce (upd_client_name p) (sv_client_name old),
                         sv_description := coalesce (upd_description p) (sv_description old),
                         sv_value := coalesce (upd_value p) (sv_value old),
                         sv_status := coalesce (upd_status p) (sv_status old),
                         sv_updated_at := (if touch then now else sv_updated_at old)\<rparr>
           in if decimal_10_2_ok (sv_value new) then
                (if status_check (sv_status new) then
                   (if sv_client_id new \<in> cl_id ` set (clients d) then
                      update_client_stats now (Some new) (Some old)
                        (d\<lparr>services :=
                             map (\<lambda>s. if visible_service auth sid s then new else s)
                               (services d)\<rparr>)
                    else Inl ForeignKeyViolation)
                 else Inl CheckViolation)
              else Inl NumericValueOutOfRange))"

text \<open>\<^verbatim>\<open>DELETE FROM services WHERE id = sid\<close> as the role \<open>auth\<close>.\<close>

definition delete_service :: "uuid option \<Rightarrow> timestamp \<Rightarrow> uuid \<Rightarrow> db \<Rightarrow> error + db" where
  "delete_service auth now sid d =
     (case find (visible_service auth sid) (services d) of
        None \<Rightarrow> Inr d
      | Some old \<Rightarrow>
          update_client_stats now None (Some old)
            (d\<lparr>services := filter (\<lambda>s. \<not> visible_service auth sid s) (services d)\<rparr>))"

subsection \<open>Sequences of statements on the services table\<close>

text \<open>One statement on \<^verbatim>\<open>services\<close> with everything it depends on. A statement that fails
  is rolled back and the next one runs on the database as it was.\<close>

datatype service_op =
    Insert "uuid option" uuid timestamp services_payload
  | Update bool "uuid option" timestamp uuid services_patch
  | Delete "uuid option" timestamp uuid

fun apply_service_op :: "service_op \<Rightarrow> db \<Rightarrow> error + db" where
  "apply_service_op (Insert auth new_id now p) d = map_sum id snd (insert_service auth new_id now p d)"
| "apply_service_op (Update touch auth now sid p) d = update_service touch auth now sid p d"
| "apply_service_op (Delete auth now sid) d = delete_service auth now sid d"

fun apply_service_ops :: "service_op list \<Rightarrow> db \<Rightarrow> db" where
  "apply_service_ops [] d = d"
| "apply_service_ops (op # ops) d =
     (case apply_service_op op d of
        Inl e \<Rightarrow> apply_service_ops ops d
      | Inr d' \<Rightarrow> apply_service_ops ops d')"

text \<open>The statement does not assign \<^verbatim>\<open>client_id\<close> of an existing row.\<close>

fun keeps_client_id :: "service_op \<Rightarrow> bool" where
  "keeps_client_id (Update touch auth now sid p) = (upd_client_id p = None)"
| "keeps_client_id op = True"

section \<open>Piece counter accumulation\<close>

text \<open>
  The trigger function \<^verbatim>\<open>update_piece_counter_total()\<close>, fired \<^verbatim>\<open>AFTER INSERT ON
  piece_counter_history FOR EACH ROW\<close>: it adds the new row's delta to the stored total.
  A sum outside \<^verbatim>\<open>INTEGER\<close> raises and aborts the insert.
\<close>

definition update_piece_counter_total ::
  "timestamp \<Rightarrow> piece_counter_history_row \<Rightarrow> db \<Rightarrow> error + db" where
  "update_piece_counter_total now NEW d =
     (if list_ex (\<lambda>k. pc_id k = h_counter_id NEW \<and>
                      \<not> int4_ok (pc_total_pieces k + h_pieces_added NEW)) (piece_counters d)
      then Inl NumericValueOutOfRange
      else Inr (d\<lparr>piece_counters :=
        map (\<lambda>k. if pc_id k = h_counter_id NEW
                  then k\<lparr>pc_total_pieces := pc_total_pieces k + h_pieces_added NEW,
                         pc_updated_at := now\<rparr>
                  else k) (piece_counters d)\<rparr>))"

record history_payload =
  hin_user_id :: "uuid option"
  hin_counter_id :: "uuid option"
  hin_client_name :: "string option"
  hin_pieces_added :: "int option"
  hin_description :: "string option"

text \<open>\<^verbatim>\<open>INSERT INTO piece_counter_history ... RETURNING *\<close> as the role \<open>auth\<close>, with the
  same order of checks as for \<^verbatim>\<open>services\<close>.\<close>

definition insert_history ::
  "uuid option \<Rightarrow> uuid \<Rightarrow> timestamp \<Rightarrow> history_payload \<Rightarrow> db \<Rightarrow>
     error + piece_counter_history_row \<times> db" where
  "insert_history auth new_id now p d =
     (if (case hin_pieces_added p of Some n \<Rightarrow> \<not> int4_ok n | None \<Rightarrow> False)
      then Inl NumericValueOutOfRange
      else if auth = None then Inl RlsViolation
      else if hin_user_id p = auth then
        (case hin_user_id p of None \<Rightarrow> Inl NotNullViolation | Some uid \<Rightarrow>
         (case hin_counter_id p of None \<Rightarrow> Inl NotNullViolation | Some kid \<Rightarrow>
         (case hin_client_name p of None \<Rightarrow> Inl NotNullViolation | Some cname \<Rightarrow>
         (case hin_pieces_added p of None \<Rightarrow> Inl NotNullViolation | Some n \<Rightarrow>
           (let row = \<lparr>h_id = new_id, h_user_id = uid, h_counter_id = kid,
                       h_client_name = cname, h_pieces_added = n,
                       h_description = hin_description p, h_created_at = now\<rparr>
            in if new_id \<in> h_id ` set (piece_counter_history d) then Inl UniqueViolation
               else if uid \<in> set (users d) \<and> kid \<in> pc_id ` set (piece_counters d) then
                 (case update_piece_counter_total now row
                         (d\<lparr>piece_counter_history := piece_counter_history d @ [row]\<rparr>) of
                    Inl e \<Rightarrow> Inl e
                  | Inr d' \<Rightarrow> Inr (row, d'))
               else Inl ForeignKeyViolation)))))
      else Inl RlsViolation)"

subsection \<open>Sequences of history insertions\<close>

text \<open>One \<^verbatim>\<open>INSERT INTO piece_counter_history\<close> request: who sends it, the identifier and
  the clock reading it gets, and its payload.\<close>

record history_request =
  rq_auth :: "uuid option"
  rq_new_id :: uuid
  rq_now :: timestamp
  rq_payload :: history_payload


fun insert_history_each :: "history_request list \<Rightarrow> db \<Rightarrow> db" where
  "insert_history_each [] d = d"
| "insert_history_each (r # rs) d =
     (case insert_history (rq_auth r) (rq_new_id r) (rq_now r) (rq_payload r) d of
        Inl e \<Rightarrow> insert_history_each rs d
      | Inr (row, d') \<Rightarrow> insert_history_each rs d')"

section \<open>The application's mutating calls\<close>

text \<open>
  \<^verbatim>\<open>hooks/useSupabase.ts\<close>. \<open>user\<close> is what \<^verbatim>\<open>supabase.auth.getUser()\<close> resolves to; every
  request of the call is made with that user's token. Each request is a transaction of its
  own, so what an earlier request wrote stays when a later one fails: the calls return the
  outcome together with the database they leave. The \<open>g\<close>s are the fresh identifiers and the
  \<open>t\<close>s the clock readings of the requests, in order.
\<close>

datatype status = progress | delivered | paid

fun status_text :: "status \<Rightarrow> string" where
  "status_text progress = ''progress''"
| "status_text delivered = ''delivered''"
| "status_text paid = ''paid''"

record service_data =
  sd_client_name :: string
  sd_description :: string
  sd_value :: money
  sd_delivery_date :: "date option"
  sd_status :: status

definition createService ::
  "(string \<Rightarrow> string) \<Rightarrow> uuid option \<Rightarrow> uuid \<Rightarrow> uuid \<Rightarrow> timestamp \<Rightarrow> timestamp \<Rightarrow>
     service_data \<Rightarrow> db \<Rightarrow> (error + service) \<times> db" where
  "createService LOWER user g1 g2 t1 t2 serviceData d =
     (case user of
        None \<Rightarrow> (Inl NotAuthenticated, d)
      | Some uid \<Rightarrow>
          (case get_or_create_client LOWER g1 t1 uid (sd_client_name serviceData) d of
             (Inl clientError, d1) \<Rightarrow> (Inl clientError, d1)
           | (Inr clientId, d1) \<Rightarrow>
               (case insert_service (Some uid) g2 t2
                       \<lparr>ins_user_id = Some uid, ins_client_id = Some clientId,
                        ins_client_name = Some (sd_client_name serviceData),
                        ins_description = Some (sd_description serviceData),
                        ins_value = Some (sd_value serviceData),
                        ins_delivery_date = sd_delivery_date serviceData,
                        ins_status = Given (status_text (sd_status serviceData))\<rparr> d1 of
                  Inl e \<Rightarrow> (Inl e, d1)
                | Inr (row, d2) \<Rightarrow> (Inr row, d2))))"

record pieces_data =
  pd_client_name :: string
  pd_pieces_added :: int
  pd_description :: "string option"

definition addPiecesToCounter ::
  "(string \<Rightarrow> string) \<Rightarrow> uuid option \<Rightarrow> uuid \<Rightarrow> uuid \<Rightarrow> uuid \<Rightarrow>
     timestamp \<Rightarrow> timestamp \<Rightarrow> timestamp \<Rightarrow>
     pieces_data \<Rightarrow> db \<Rightarrow> (error + piece_counter_history_row) \<times> db" where
  "addPiecesToCounter LOWER user g1 g2 g3 t1 t2 t3 data d =
     (case user of
        None \<Rightarrow> (Inl NotAuthenticated, d)
      | Some uid \<Rightarrow>
          (case get_or_create_client LOWER g1 t1 uid (pd_client_name data) d of
             (Inl clientError, d1) \<Rightarrow> (Inl clientError, d1)
           | (Inr clientId, d1) \<Rightarrow>
               (case get_or_create_piece_counter g2 t2 uid clientId (pd_client_name data) d1 of
                  (Inl counterError, d2) \<Rightarrow> (Inl counterError, d2)
                | (Inr counterId, d2) \<Rightarrow>
                    (case insert_history (Some uid) g3 t3
                            \<lparr>hin_user_id = Some uid, hin_counter_id = Some counterId,
                             hin_client_name = Some (pd_client_name data),
                             hin_pieces_added = Some (pd_pieces_added data),
                             hin_description = pd_description data\<rparr> d2 of
                       Inl historyError \<Rightarrow> (Inl historyError, d2)
                     | Inr (historyData, d3) \<Rightarrow> (Inr historyData, d3)))))"

text \<open>
  \<^verbatim>\<open>updateClientFavorite(clientId, isFavorite)\<close>:
  \<^verbatim>\<open>UPDATE clients SET is_favorite = isFavorite WHERE id = clientId\<close> as the role \<open>auth\<close>
  (policy \<^verbatim>\<open>USING (auth.uid() = user_id)\<close>). An update that matches no row is no error.
\<close>

definition updateClientFavorite ::
  "bool \<Rightarrow> uuid option \<Rightarrow> timestamp \<Rightarrow> uuid \<Rightarrow> bool \<Rightarrow> db \<Rightarrow> (error + unit) \<times> db" where
  "updateClientFavorite touch auth now clientId isFavorite d =
     (Inr (),
      d\<lparr>clients :=
          map (\<lambda>c. if cl_id c = clientId \<and> Some (cl_user_id c) = auth
                    then c\<lparr>cl_is_favorite := isFavorite,
                           cl_updated_at := (if touch then now else cl_updated_at c)\<rparr>
                    else c) (clients d)\<rparr>)"

section \<open>Derived values and constraints as properties of a database\<close>

text \<open>\<^verbatim>\<open>SELECT total_pieces FROM piece_counters WHERE id = K\<close>.\<close>

definition select_total_pieces :: "uuid \<Rightarrow> db \<Rightarrow> int list" where
  "select_total_pieces K d = map pc_total_pieces (filter (\<lambda>k. pc_id k = K) (piece_counters d))"

text \<open>Following the spec's words, the full recomputation from the ledger: the sum of
  \<^verbatim>\<open>pieces_added\<close> over all history rows of the counter.\<close>

definition recomputed_total :: "uuid \<Rightarrow> db \<Rightarrow> int" where
  "recomputed_total K d =
     sum_list (map h_pieces_added (filter (\<lambda>h. h_counter_id h = K) (piece_counter_history d)))"

text \<open>The foreign key \<^verbatim>\<open>piece_counter_history.counter_id REFERENCES piece_counters(id)\<close>
  as a property of a database.\<close>

definition history_fk :: "db \<Rightarrow> bool" where
  "history_fk d =
     list_all (\<lambda>h. h_counter_id h \<in> pc_id ` set (piece_counters d)) (piece_counter_history d)"

text \<open>Following the spec's words: every client's \<^verbatim>\<open>total_spent\<close> is the sum of the values
  of its paid services, and its \<^verbatim>\<open>last_service_date\<close> is the latest creation date of its
  services, or NULL if it has none.\<close>

definition stats_consistent :: "db \<Rightarrow> bool" where
  "stats_consistent d =
     list_all
       (\<lambda>c. cl_total_spent c =
               sum_list (map sv_value
                 (filter (\<lambda>s. sv_client_id s = cl_id c \<and> sv_status s = Some ''paid'')
                    (services d)))
           \<and> cl_last_service_date c =
               (if filter (\<lambda>s. sv_client_id s = cl_id c) (services d) = [] then None
                else Some (Max (set (map (\<lambda>s. date_of (sv_created_at s))
                       (filter (\<lambda>s. sv_client_id s = cl_id c) (services d)))))))
       (clients d)"

text \<open>The primary key of \<^verbatim>\<open>services\<close> as a property of a database.\<close>

definition services_pk :: "db \<Rightarrow> bool" where
  "services_pk d = distinct (map sv_id (services d))"

section \<open>Example data\<close>

text \<open>
  The case folding of the examples: \<^verbatim>\<open>A-Z\<close> to \<^verbatim>\<open>a-z\<close>, every other character as it
  is. The names in the examples are plain ASCII letters, which \<^verbatim>\<open>LOWER\<close> folds this way.
\<close>

definition ascii_lower_char :: "char \<Rightarrow> char" where
  "ascii_lower_char c =
     (if 65 \<le> (of_char c :: nat) \<and> (of_char c :: nat) \<le> 90
      then char_of ((of_char c :: nat) + 32) else c)"

definition ascii_lower :: "string \<Rightarrow> string" where
  "ascii_lower s = map ascii_lower_char s"

text \<open>A database with one account (user 1) and nothing else.\<close>

definition db0 :: db where
  "db0 = \<lparr>users = [1], clients = [], services = [], piece_counters = [],
          piece_counter_history = []\<rparr>"

text \<open>The same after the client ``Ana'' was created for user 1 with identifier 10 at time
  100.\<close>

definition db_ana :: db where
  "db_ana = db0\<lparr>clients :=
     [\<lparr>cl_id = 10, cl_user_id = 1, cl_name = ''Ana'',
       cl_phone = None, cl_email = None, cl_is_favorite = False,
       cl_total_spent = 0, cl_last_service_date = None, cl_notes = None,
       cl_created_at = 100, cl_updated_at = 100\<rparr>]\<rparr>"

text \<open>The same with the client stored as ``ana''.\<close>

definition db_ana_lower :: db where
  "db_ana_lower = db0\<lparr>clients :=
     [\<lparr>cl_id = 10, cl_user_id = 1, cl_name = ''ana'',
       cl_phone = None, cl_email = None, cl_is_favorite = False,
       cl_total_spent = 0, cl_last_service_date = None, cl_notes = None,
       cl_created_at = 100, cl_updated_at = 100\<rparr>]\<rparr>"

text \<open>A paid service of 120.00 for the name ``ana'', the row \<open>createService\<close> stores for it
  in \<open>db_ana\<close>, and the database it leaves.\<close>

definition sd_ana_lower :: service_data where
  "sd_ana_lower = \<lparr>sd_client_name = ''ana'', sd_description = ''Bainha'',
     sd_value = 12000, sd_delivery_date = None, sd_status = paid\<rparr>"

definition sv_ana_lower :: service where
  "sv_ana_lower = \<lparr>sv_id = 20, sv_user_id = 1, sv_client_id = 10,
     sv_client_name = ''ana'', sv_description = ''Bainha'',
     sv_value = 12000, sv_delivery_date = None,
     sv_status = Some ''paid'', sv_notes = None, sv_created_at = 300,
     sv_updated_at = 300\<rparr>"

definition db_ana_paid :: db where
  "db_ana_paid = \<lparr>users = [1],
     clients =
       [\<lparr>cl_id = 10, cl_user_id = 1, cl_name = ''Ana'', cl_phone = None,
         cl_email = None, cl_is_favorite = False, cl_total_spent = 12000,
         cl_last_service_date = Some 0, cl_notes = None,
         cl_created_at = 100, cl_updated_at = 300\<rparr>],
     services = [sv_ana_lower],
     piece_counters = [], piece_counter_history = []\<rparr>"

text \<open>A request of user 1 to add \<open>n\<close> pieces to counter 30 (of the client ``Ana'').\<close>

definition add_pieces_request :: "uuid \<Rightarrow> timestamp \<Rightarrow> int \<Rightarrow> history_request" where
  "add_pieces_request g t n =
     \<lparr>rq_auth = Some 1, rq_new_id = g, rq_now = t,
      rq_payload = \<lparr>hin_user_id = Some 1, hin_counter_id = Some 30,
                    hin_client_name = Some ''Ana'', hin_pieces_added = Some n,
                    hin_description = None\<rparr>\<rparr>"

text \<open>\<open>db_ana\<close> after the counter 30 was created for ``Ana'' at time 400.\<close>

definition db_counter :: db where
  "db_counter = db_ana\<lparr>piece_counters :=
     [\<lparr>pc_id = 30, pc_user_id = 1, pc_client_id = 10, pc_client_name = ''Ana'',
       pc_total_pieces = 0, pc_created_at = 400, pc_updated_at = 400\<rparr>]\<rparr>"

text \<open>User 1 with the clients ``Ana'' (10) and ``Maria'' (11); the paid service of 120.00
  that \<open>createService\<close> stores for ``Ana'' there, and the database it leaves; the update
  \<^verbatim>\<open>UPDATE services SET client_id = 11 WHERE id = 20\<close> and the database after it.\<close>

definition db_ana_maria :: db where
  "db_ana_maria = db0\<lparr>clients :=
     [\<lparr>cl_id = 10, cl_user_id = 1, cl_name = ''Ana'',
       cl_phone = None, cl_email = None, cl_is_favorite = False,
       cl_total_spent = 0, cl_last_service_date = None, cl_notes = None,
       cl_created_at = 100, cl_updated_at = 100\<rparr>,
      \<lparr>cl_id = 11, cl_user_id = 1, cl_name = ''Maria'',
       cl_phone = None, cl_email = None, cl_is_favorite = False,
       cl_total_spent = 0, cl_last_service_date = None, cl_notes = None,
       cl_created_at = 150, cl_updated_at = 150\<rparr>]\<rparr>"

definition sd_ana :: service_data where
  "sd_ana = \<lparr>sd_client_name = ''Ana'', sd_description = ''Vestido'',
     sd_value = 12000, sd_delivery_date = None, sd_status = paid\<rparr>"

definition sv_vestido :: service where
  "sv_vestido = \<lparr>sv_id = 20, sv_user_id = 1, sv_client_id = 10, sv_client_name = ''Ana'',
     sv_description = ''Vestido'', sv_value = 12000, sv_delivery_date = None,
     sv_status = Some ''paid'', sv_notes = None, sv_created_at = 200000,
     sv_updated_at = 200000\<rparr>"

definition db_vestido :: db where
  "db_vestido = db0\<lparr>clients :=
     [\<lparr>cl_id = 10, cl_user_id = 1, cl_name = ''Ana'',
       cl_phone = None, cl_email = None, cl_is_favorite = False,
       cl_total_spent = 12000, cl_last_service_date = Some 2, cl_notes = None,
       cl_created_at = 100, cl_updated_at = 200000\<rparr>,
      \<lparr>cl_id = 11, cl_user_id = 1, cl_name = ''Maria'',
       cl_phone = None, cl_email = None, cl_is_favorite = False,
       cl_total_spent = 0, cl_last_service_date = None, cl_notes = None,
       cl_created_at = 150, cl_updated_at = 150\<rparr>],
     services := [sv_vestido]\<rparr>"

definition set_client_11 :: services_patch where
  "set_client_11 = \<lparr>upd_client_id = Some 11, upd_client_name = None,
     upd_description = None, upd_value = None, upd_status = None\<rparr>"

definition db_moved :: db where
  "db_moved = db0\<lparr>clients :=
     [\<lparr>cl_id = 10, cl_user_id = 1, cl_name = ''Ana'',
       cl_phone = None, cl_email = None, cl_is_favorite = False,
       cl_total_spent = 12000, cl_last_service_date = Some 2, cl_notes = None,
       cl_created_at = 100, cl_updated_at = 200000\<rparr>,
      \<lparr>cl_id = 11, cl_user_id = 1, cl_name = ''Maria'',
       cl_phone = None, cl_email = None, cl_is_favorite = False,
       cl_total_spent = 12000, cl_last_service_date = Some 2, cl_notes = None,
       cl_created_at = 150, cl_updated_at = 300000\<rparr>],
     services := [sv_vestido\<lparr>sv_client_id := 11, sv_updated_at := 300000\<rparr>]\<rparr>"

text \<open>\<open>db_vestido\<close> after user 1 has marked ``Ana'' as a favourite at time 400000.\<close>

definition db_favorite :: db where
  "db_favorite = db0\<lparr>clients :=
     [\<lparr>cl_id = 10, cl_user_id = 1, cl_name = ''Ana'',
       cl_phone = None, cl_email = None, cl_is_favorite = True,
       cl_total_spent = 12000, cl_last_service_date = Some 2, cl_notes = None,
       cl_created_at = 100, cl_updated_at = 400000\<rparr>,
      \<lparr>cl_id = 11, cl_user_id = 1, cl_name = ''Maria'',
       cl_phone = None, cl_email = None, cl_is_favorite = False,
       cl_total_spent = 0, cl_last_service_date = None, cl_notes = None,
       cl_created_at = 150, cl_updated_at = 150\<rparr>],
     services := [sv_vestido]\<rparr>"

text \<open>The row of ``Ana'' after her only service was deleted at time 500000.\<close>

definition cl_ana_emptied :: client where
  "cl_ana_emptied = \<lparr>cl_id = 10, cl_user_id = 1, cl_name = ''Ana'',
     cl_phone = None, cl_email = None, cl_is_favorite = False,
     cl_total_spent = 0, cl_last_service_date = None, cl_notes = None,
     cl_created_at = 100, cl_updated_at = 500000\<rparr>"

text \<open>The row of ``Ana'' in \<open>db_ana_maria\<close>, and the row that a first lookup of ``Joana''
  appends there with identifier 12 at time 300.\<close>

definition cl_ana :: client where
  "cl_ana = \<lparr>cl_id = 10, cl_user_id = 1, cl_name = ''Ana'',
     cl_phone = None, cl_email = None, cl_is_favorite = False,
     cl_total_spent = 0, cl_last_service_date = None, cl_notes = None,
     cl_created_at = 100, cl_updated_at = 100\<rparr>"

definition cl_joana :: client where
  "cl_joana = \<lparr>cl_id = 12, cl_user_id = 1, cl_name = ''Joana'',
     cl_phone = None, cl_email = None, cl_is_favorite = False,
     cl_total_spent = 0, cl_last_service_date = None, cl_notes = None,
     cl_created_at = 300, cl_updated_at = 300\<rparr>"

text \<open>An insert payload for a paid service of -50.00 for the client ``Ana''.\<close>

definition negative_payload :: services_payload where
  "negative_payload = \<lparr>ins_user_id = Some 1, ins_client_id = Some 10,
     ins_client_name = Some ''Ana'', ins_description = Some ''Ajuste'',
     ins_value = Some (- 5000), ins_delivery_date = None, ins_status = Given ''paid''\<rparr>"

definition sd_negative :: service_data where
  "sd_negative = \<lparr>sd_client_name = ''Ana'', sd_description = ''Ajuste'',
     sd_value = - 5000, sd_delivery_date = None, sd_status = paid\<rparr>"

definition sv_negative :: service where
  "sv_negative = \<lparr>sv_id = 21, sv_user_id = 1, sv_client_id = 10,
     sv_client_name = ''Ana'', sv_description = ''Ajuste'',
     sv_value = - 5000, sv_delivery_date = None,
     sv_status = Some ''paid'', sv_notes = None, sv_created_at = 400,
     sv_updated_at = 400\<rparr>"

definition db_negative :: db where
  "db_negative = db0\<lparr>clients :=
     [\<lparr>cl_id = 10, cl_user_id = 1, cl_name = ''Ana'', cl_phone = None,
       cl_email = None, cl_is_favorite = False, cl_total_spent = - 5000,
       cl_last_service_date = Some 0, cl_notes = None,
       cl_created_at = 100, cl_updated_at = 400\<rparr>],
     services := [sv_negative]\<rparr>"

section \<open>Auxiliary facts\<close>

lemma find_append_None:
  "find P xs = None \<Longrightarrow> find P (xs @ [y]) = (if P y then Some y else None)"
  by (induction xs) (auto split: if_splits)

lemma find_SomeD: "find P xs = Some x \<Longrightarrow> P x \<and> x \<in> set xs"
  by (induction xs) (auto split: if_splits)

lemma LOWER_Ana: "ascii_lower ''Ana'' = ''ana''" "ascii_lower ''ana'' = ''ana''"
  by code_simp+

lemma LOWER_names: "ascii_lower ''Maria'' = ''maria''" "ascii_lower ''Joana'' = ''joana''"
  by code_simp+

lemmas service_eval =
  createService_def get_or_create_client_def insert_service_def update_service_def
  update_client_stats_def paid_total_def last_created_date_def sql_sum_def
  coalesce_def coalesce_null_def date_of_def decimal_10_2_ok_def status_check_def
  visible_service_def Let_def LOWER_Ana LOWER_names

lemmas history_eval =
  insert_history_def update_piece_counter_total_def add_pieces_request_def int4_ok_def
  db_counter_def db_ana_def db0_def Let_def

section \<open>Properties of identity resolution\<close>

lemma get_or_create_client_new:
  assumes "get_or_create_client LOWER g t A N d = (Inr i, d1)"
    and "i \<notin> cl_id ` set (clients d)"
  shows "clients d1 = clients d @
           [\<lparr>cl_id = i, cl_user_id = A, cl_name = N, cl_phone = None, cl_email = None,
             cl_is_favorite = False, cl_total_spent = 0, cl_last_service_date = None,
             cl_notes = None, cl_created_at = t, cl_updated_at = t\<rparr>]"
  using assms
  by (auto simp: get_or_create_client_def insert_client_def
      split: option.splits if_splits dest: find_SomeD)

lemma get_or_create_client_succeeds:
  assumes "A \<in> set (users d)" and "g \<notin> cl_id ` set (clients d)"
  shows "\<exists>i d1. get_or_create_client LOWER g t A N d = (Inr i, d1)"
  using assms
  by (simp add: get_or_create_client_def insert_client_def split: option.splits)

lemma get_or_create_piece_counter_new:
  assumes "get_or_create_piece_counter g t A C N d = (Inr K, d1)"
    and "K \<notin> pc_id ` set (piece_counters d)"
  shows "piece_counters d1 = piece_counters d @
           [\<lparr>pc_id = K, pc_user_id = A, pc_client_id = C, pc_client_name = N,
             pc_total_pieces = 0, pc_created_at = t, pc_updated_at = t\<rparr>]"
    and "piece_counter_history d1 = piece_counter_history d"
  using assms
  by (auto simp: get_or_create_piece_counter_def insert_piece_counter_def
      split: option.splits if_splits dest: find_SomeD)

lemma db_counter_created:
  "get_or_create_piece_counter 30 400 1 10 ''Ana'' db_ana = (Inr 30, db_counter)"
  "30 \<notin> pc_id ` set (piece_counters db_ana)"
  by (simp_all add: get_or_create_piece_counter_def insert_piece_counter_def
      db_counter_def db_ana_def db0_def)

text \<open>
  Claim C2. Calling \<open>get_or_create_client\<close> twice in sequence for the same account and name
  returns the same identifier both times, and the second call leaves the database as the
  first call left it (no second client row).
\<close>

theorem get_or_create_client_idempotent:
  assumes "get_or_create_client LOWER g1 t1 A N d = (Inr i, d1)"
  shows "get_or_create_client LOWER g2 t2 A N d1 = (Inr i, d1)"
proof (cases "find (\<lambda>c. cl_user_id c = A \<and> LOWER (cl_name c) = LOWER N) (clients d)")
  case (Some c)
  with assms show ?thesis
    by (auto simp: get_or_create_client_def)
next
  case None
  with assms show ?thesis
    by (auto simp: get_or_create_client_def insert_client_def find_append_None
        split: if_splits)
qed

theorem get_or_create_client_idempotent_witness:
  "get_or_create_client ascii_lower 10 100 1 ''Ana'' db0 = (Inr 10, db_ana)
   \<and> get_or_create_client ascii_lower 11 200 1 ''Ana'' db_ana = (Inr 10, db_ana)"
proof -
  have first: "get_or_create_client ascii_lower 10 100 1 ''Ana'' db0 = (Inr 10, db_ana)"
    by (simp add: get_or_create_client_def insert_client_def db0_def db_ana_def)
  have "get_or_create_client ascii_lower 11 200 1 ''Ana'' db_ana = (Inr 10, db_ana)"
    by (rule get_or_create_client_idempotent [OF first])
  with first show ?thesis by (rule conjI)
qed

lemma find_match:
  assumes "c \<in> set xs" and "P c"
  shows "\<exists>m\<in>set xs. P m \<and> find P xs = Some m"
proof (cases "find P xs")
  case None
  with assms show ?thesis
    by (auto simp: find_None_iff)
next
  case (Some m)
  with find_SomeD [OF Some] show ?thesis
    by auto
qed

lemma existing_client_is_matched:
  assumes "c \<in> set (clients d)" and "cl_user_id c = A" and "LOWER (cl_name c) = LOWER N"
  shows "\<exists>m\<in>set (clients d). cl_user_id m = A \<and> LOWER (cl_name m) = LOWER N
           \<and> get_or_create_client LOWER g t A N d = (Inr (cl_id m), d)"
proof -
  from assms(2,3) have "cl_user_id c = A \<and> LOWER (cl_name c) = LOWER N"
    by simp
  from find_match [of c "clients d"
      "\<lambda>c. cl_user_id c = A \<and> LOWER (cl_name c) = LOWER N", OF assms(1) this]
  obtain m where "m \<in> set (clients d)"
    and "cl_user_id m = A \<and> LOWER (cl_name m) = LOWER N"
    and "find (\<lambda>c. cl_user_id c = A \<and> LOWER (cl_name c) = LOWER N) (clients d) = Some m"
    by blast
  then show ?thesis
    by (auto simp: get_or_create_client_def)
qed

lemma unmatched_client_is_created:
  assumes "filter (\<lambda>m. cl_user_id m = A \<and> LOWER (cl_name m) = LOWER N) (clients d) = []"
    and "get_or_create_client LOWER g t A N d = (Inr i, d1)"
  shows "i \<notin> cl_id ` set (clients d) \<and> clients d1 = clients d @
           [\<lparr>cl_id = i, cl_user_id = A, cl_name = N, cl_phone = None, cl_email = None,
             cl_is_favorite = False, cl_total_spent = 0, cl_last_service_date = None,
             cl_notes = None, cl_created_at = t, cl_updated_at = t\<rparr>]"
proof -
  from assms(1)
  have "find (\<lambda>m. cl_user_id m = A \<and> LOWER (cl_name m) = LOWER N) (clients d) = None"
    by (simp add: find_None_iff filter_empty_conv)
  with assms(2) show ?thesis
    by (auto simp: get_or_create_client_def insert_client_def split: if_splits)
qed

lemma case_variant_resolves_alike:
  assumes "get_or_create_client LOWER g1 t1 A N1 d = (Inr i, d1)"
    and "LOWER N2 = LOWER N1"
  shows "get_or_create_client LOWER g2 t2 A N2 d1 = (Inr i, d1)
         \<and> (\<exists>c\<in>set (clients d1).
               cl_id c = i \<and> cl_user_id c = A \<and> LOWER (cl_name c) = LOWER N2)"
proof (cases "find (\<lambda>c. cl_user_id c = A \<and> LOWER (cl_name c) = LOWER N1) (clients d)")
  case (Some c)
  with assms show ?thesis
    by (auto simp: get_or_create_client_def dest: find_SomeD)
next
  case None
  with assms show ?thesis
    by (auto simp: get_or_create_client_def insert_client_def find_append_None
        split: if_splits)
qed

text \<open>
  Claim C4. \<open>get_or_create_client\<close> matches an existing client by case-insensitive equality
  of the name within the account. (1) When the account has a client whose name equals the
  given name under \<^verbatim>\<open>LOWER\<close>, the call returns the identifier of such a client of the
  account and writes nothing. (2) When the account has none, a call that succeeds appends a
  new client with the name as given. (3) After a call for a name, a call for any name with
  the same \<^verbatim>\<open>LOWER\<close> form (``ana'' then ``Ana'') returns the same identifier and writes
  nothing, and the client it returns belongs to the account and has a name equal up to
  case.
\<close>

theorem get_or_create_client_case_insensitive:
  "(c \<in> set (clients d) \<and> cl_user_id c = A \<and> LOWER (cl_name c) = LOWER N \<longrightarrow>
      (\<exists>m\<in>set (clients d). cl_user_id m = A \<and> LOWER (cl_name m) = LOWER N
           \<and> get_or_create_client LOWER g t A N d = (Inr (cl_id m), d)))
   \<and> (filter (\<lambda>m. cl_user_id m = A' \<and> LOWER (cl_name m) = LOWER N') (clients dn) = []
        \<and> get_or_create_client LOWER g' t' A' N' dn = (Inr j, dm) \<longrightarrow>
      j \<notin> cl_id ` set (clients dn) \<and> clients dm = clients dn @
           [\<lparr>cl_id = j, cl_user_id = A', cl_name = N', cl_phone = None, cl_email = None,
             cl_is_favorite = False, cl_total_spent = 0, cl_last_service_date = None,
             cl_notes = None, cl_created_at = t', cl_updated_at = t'\<rparr>])
   \<and> (get_or_create_client LOWER g1 t1 B N1 ds
       = (Inr i, d1) \<and> LOWER N2 = LOWER N1 \<longrightarrow>
      get_or_create_client LOWER g2 t2 B N2 d1 = (Inr i, d1)
      \<and> (\<exists>c\<in>set (clients d1).
            cl_id c = i \<and> cl_user_id c = B \<and> LOWER (cl_name c) = LOWER N2))"
proof (intro conjI impI)
  assume "c \<in> set (clients d) \<and> cl_user_id c = A \<and> LOWER (cl_name c) = LOWER N"
  then have "c \<in> set (clients d)" and "cl_user_id c = A" and "LOWER (cl_name c) = LOWER N"
    by simp_all
  then show "\<exists>m\<in>set (clients d). cl_user_id m = A \<and> LOWER (cl_name m) = LOWER N
           \<and> get_or_create_client LOWER g t A N d = (Inr (cl_id m), d)"
    by (rule existing_client_is_matched)
next
  assume a: "filter (\<lambda>m. cl_user_id m = A' \<and> LOWER (cl_name m) = LOWER N') (clients dn) = []
        \<and> get_or_create_client LOWER g' t' A' N' dn = (Inr j, dm)"
  then have "filter (\<lambda>m. cl_user_id m = A' \<and> LOWER (cl_name m) = LOWER N') (clients dn) = []"
    and "get_or_create_client LOWER g' t' A' N' dn = (Inr j, dm)"
    by simp_all
  from unmatched_client_is_created [OF this]
  show "j \<notin> cl_id ` set (clients dn)"
    and "clients dm = clients dn @
           [\<lparr>cl_id = j, cl_user_id = A', cl_name = N', cl_phone = None, cl_email = None,
             cl_is_favorite = False, cl_total_spent = 0, cl_last_service_date = None,
             cl_notes = None, cl_created_at = t', cl_updated_at = t'\<rparr>]"
    by simp_all
next
  assume "get_or_create_client LOWER g1 t1 B N1 ds = (Inr i, d1) \<and> LOWER N2 = LOWER N1"
  then have "get_or_create_client LOWER g1 t1 B N1 ds = (Inr i, d1)" and "LOWER N2 = LOWER N1"
    by simp_all
  from case_variant_resolves_alike [OF this, of g2 t2]
  show "get_or_create_client LOWER g2 t2 B N2 d1 = (Inr i, d1)"
    and "\<exists>c\<in>set (clients d1).
            cl_id c = i \<and> cl_user_id c = B \<and> LOWER (cl_name c) = LOWER N2"
    by simp_all
qed

theorem get_or_create_client_case_insensitive_witness:
  "(cl_ana \<in> set (clients db_ana_maria) \<and> cl_user_id cl_ana = 1
      \<and> ascii_lower (cl_name cl_ana) = ascii_lower ''ana'')
   \<and> get_or_create_client ascii_lower 12 300 1 ''ana'' db_ana_maria = (Inr 10, db_ana_maria)
   \<and> (filter (\<lambda>m. cl_user_id m = 1 \<and> ascii_lower (cl_name m) = ascii_lower ''Joana'')
         (clients db_ana_maria) = []
      \<and> get_or_create_client ascii_lower 12 300 1 ''Joana'' db_ana_maria
          = (Inr 12, db_ana_maria\<lparr>clients := clients db_ana_maria @ [cl_joana]\<rparr>))
   \<and> clients (db_ana_maria\<lparr>clients := clients db_ana_maria @ [cl_joana]\<rparr>)
       = clients db_ana_maria @ [cl_joana]
   \<and> (get_or_create_client ascii_lower 10 100 1 ''ana'' db0 = (Inr 10, db_ana_lower)
      \<and> ascii_lower ''Ana'' = ascii_lower ''ana'')
   \<and> get_or_create_client ascii_lower 11 200 1 ''Ana'' db_ana_lower = (Inr 10, db_ana_lower)
   \<and> (\<exists>c\<in>set (clients db_ana_lower).
         cl_id c = 10 \<and> cl_user_id c = 1 \<and> ascii_lower (cl_name c) = ascii_lower ''Ana'')"
proof -
  let ?dj = "db_ana_maria\<lparr>clients := clients db_ana_maria @ [cl_joana]\<rparr>"
  have h1: "cl_ana \<in> set (clients db_ana_maria) \<and> cl_user_id cl_ana = 1
      \<and> ascii_lower (cl_name cl_ana) = ascii_lower ''ana''"
    by (simp add: db_ana_maria_def cl_ana_def LOWER_Ana)
  have h2: "filter (\<lambda>m. cl_user_id m = 1 \<and> ascii_lower (cl_name m) = ascii_lower ''Joana'')
         (clients db_ana_maria) = []
      \<and> get_or_create_client ascii_lower 12 300 1 ''Joana'' db_ana_maria = (Inr 12, ?dj)"
    by (simp add: get_or_create_client_def insert_client_def db_ana_maria_def db0_def
        cl_joana_def LOWER_Ana LOWER_names)
  have h3: "get_or_create_client ascii_lower 10 100 1 ''ana'' db0 = (Inr 10, db_ana_lower)
      \<and> ascii_lower ''Ana'' = ascii_lower ''ana''"
    by (simp add: get_or_create_client_def insert_client_def db0_def db_ana_lower_def
        LOWER_Ana)
  note all = get_or_create_client_case_insensitive
    [where LOWER = ascii_lower and c = cl_ana and d = db_ana_maria and A = 1
       and N = "''ana''" and g = 12 and t = 300
       and A' = 1 and N' = "''Joana''" and dn = db_ana_maria and g' = 12 and t' = 300
       and j = 12 and dm = ?dj
       and ?g1.0 = 10 and ?t1.0 = 100 and B = 1 and ?N1.0 = "''ana''" and ds = db0
       and i = 10 and ?d1.0 = db_ana_lower and ?N2.0 = "''Ana''" and ?g2.0 = 11
       and ?t2.0 = 200]
  from all [THEN conjunct1, THEN mp, OF h1]
  obtain m where m: "m \<in> set (clients db_ana_maria)" "cl_user_id m = 1"
    "ascii_lower (cl_name m) = ascii_lower ''ana''"
    and found: "get_or_create_client ascii_lower 12 300 1 ''ana'' db_ana_maria
                = (Inr (cl_id m), db_ana_maria)"
    by blast
  from m have "cl_id m = 10"
    by (auto simp: db_ana_maria_def db0_def cl_ana_def LOWER_Ana LOWER_names)
  with found have c1: "get_or_create_client ascii_lower 12 300 1 ''ana'' db_ana_maria
                       = (Inr 10, db_ana_maria)"
    by simp
  from all [THEN conjunct2, THEN conjunct1, THEN mp, OF h2]
  have c2: "clients ?dj = clients db_ana_maria @ [cl_joana]"
    by (simp add: cl_joana_def)
  from all [THEN conjunct2, THEN conjunct2, THEN mp, OF h3]
  have c3: "get_or_create_client ascii_lower 11 200 1 ''Ana'' db_ana_lower
            = (Inr 10, db_ana_lower)"
    and c4: "\<exists>c\<in>set (clients db_ana_lower).
         cl_id c = 10 \<and> cl_user_id c = 1 \<and> ascii_lower (cl_name c) = ascii_lower ''Ana''"
    by simp_all
  show ?thesis
    by (rule conjI [OF h1 conjI [OF c1 conjI [OF h2 conjI [OF c2 conjI [OF h3
          conjI [OF c3 c4]]]]]])
qed

section \<open>Properties of the client statistics\<close>

lemma no_services_zero:
  assumes "filter (\<lambda>s. sv_client_id s = cid) ss = []"
  shows "paid_total cid ss = 0" and "last_created_date cid ss = None"
proof -
  from assms have "filter (\<lambda>s. sv_client_id s = cid \<and> sv_status s = Some ''paid'') ss = []"
    by (auto simp: filter_empty_conv)
  then show "paid_total cid ss = 0"
    by (simp add: paid_total_def sql_sum_def coalesce_def)
  from assms show "last_created_date cid ss = None"
    by (simp add: last_created_date_def)
qed

lemma rewritten_rows:
  assumes "c' \<in> set (map (\<lambda>c. if cl_id c = cid
                        then c\<lparr>cl_total_spent := v, cl_last_service_date := w,
                               cl_updated_at := u\<rparr>
                        else c) cs)"
    and "cl_id c' = cid"
  shows "cl_total_spent c' = v \<and> cl_last_service_date c' = w"
proof -
  from assms(1) obtain c where
    c': "c' = (if cl_id c = cid
               then c\<lparr>cl_total_spent := v, cl_last_service_date := w, cl_updated_at := u\<rparr>
               else c)"
    by (auto simp only: set_map)
  show ?thesis
  proof (cases "cl_id c = cid")
    case True
    with c' show ?thesis by simp
  next
    case False
    with c' assms(2) show ?thesis by simp
  qed
qed

lemma update_client_stats_no_services:
  assumes "coalesce_null (map_option sv_client_id NEW) (map_option sv_client_id OLD) = Some cid"
    and "filter (\<lambda>s. sv_client_id s = cid) (services d) = []"
  shows "\<exists>d'. update_client_stats now NEW OLD d = Inr d'
           \<and> services d' = services d
           \<and> (\<forall>c\<in>set (clients d'). cl_id c = cid \<longrightarrow>
                 cl_total_spent c = 0 \<and> cl_last_service_date c = None)"
proof -
  let ?d' = "d\<lparr>clients :=
     map (\<lambda>c. if cl_id c = cid
               then c\<lparr>cl_total_spent := 0, cl_last_service_date := None,
                      cl_updated_at := now\<rparr>
               else c) (clients d)\<rparr>"
  have "update_client_stats now NEW OLD d = Inr ?d'"
    by (simp add: update_client_stats_def assms(1) no_services_zero [OF assms(2)]
        decimal_10_2_ok_def)
  moreover have "services ?d' = services d"
    by simp
  moreover have "\<forall>c\<in>set (clients ?d'). cl_id c = cid \<longrightarrow>
                 cl_total_spent c = 0 \<and> cl_last_service_date c = None"
  proof (intro ballI impI)
    fix c assume "c \<in> set (clients ?d')" and "cl_id c = cid"
    then show "cl_total_spent c = 0 \<and> cl_last_service_date c = None"
      using rewritten_rows [where c' = c and cid = cid and v = 0 and w = None and u = now
            and cs = "clients d"] by simp
  qed
  ultimately show ?thesis
    by (intro exI conjI)
qed

lemma delete_last_service:
  assumes "find (visible_service auth sid) (services d) = Some old"
    and "filter (\<lambda>s. sv_client_id s = sv_client_id old) (services d) = [old]"
  shows "\<exists>d'. delete_service auth now sid d = Inr d'
           \<and> filter (\<lambda>s. sv_client_id s = sv_client_id old) (services d') = []
           \<and> (\<forall>c\<in>set (clients d'). cl_id c = sv_client_id old \<longrightarrow>
                 cl_total_spent c = 0 \<and> cl_last_service_date c = None)"
proof -
  let ?d1 = "d\<lparr>services := filter (\<lambda>s. \<not> visible_service auth sid s) (services d)\<rparr>"
  from find_SomeD [OF assms(1)] have vis: "visible_service auth sid old"
    by simp
  have "filter (\<lambda>s. sv_client_id s = sv_client_id old) (services ?d1)
        = filter (\<lambda>s. \<not> visible_service auth sid s)
            (filter (\<lambda>s. sv_client_id s = sv_client_id old) (services d))"
    by (simp add: conj_commute)
  with assms(2) vis
  have none: "filter (\<lambda>s. sv_client_id s = sv_client_id old) (services ?d1) = []"
    by simp
  have "coalesce_null (map_option sv_client_id None) (map_option sv_client_id (Some old))
        = Some (sv_client_id old)"
    by (simp add: coalesce_null_def)
  from update_client_stats_no_services [OF this none, of now]
  obtain d' where run: "update_client_stats now None (Some old) ?d1 = Inr d'"
    and same: "services d' = services ?d1"
    and zero: "\<forall>c\<in>set (clients d'). cl_id c = sv_client_id old \<longrightarrow>
                 cl_total_spent c = 0 \<and> cl_last_service_date c = None"
    by (elim exE conjE)
  have "delete_service auth now sid d = Inr d'"
    by (simp add: delete_service_def assms(1) run)
  moreover from none same
  have "filter (\<lambda>s. sv_client_id s = sv_client_id old) (services d') = []"
    by simp
  ultimately show ?thesis
    using zero by (intro exI conjI)
qed

subsection \<open>What the statistics trigger does keep\<close>

text \<open>
  An insert, a delete, and an update that does not assign \<^verbatim>\<open>client_id\<close> each keep the
  statistics of every client equal to the recomputation over its services, in a database
  whose service identifiers are distinct. A statement that fails leaves the database as
  it was.
\<close>

lemma paid_total_sum:
  "paid_total cid ss =
     sum_list (map sv_value
       (filter (\<lambda>s. sv_client_id s = cid \<and> sv_status s = Some ''paid'') ss))"
  by (simp add: paid_total_def sql_sum_def coalesce_def)

lemma sql_max_Max: "sql_max xs = (if xs = [] then None else Some (Max (set xs)))"
proof (induction xs)
  case Nil
  then show ?case by simp
next
  case (Cons x xs)
  then show ?case
    by (cases "xs = []") simp_all
qed

lemma last_created_date_Max:
  "last_created_date cid ss =
     (if filter (\<lambda>s. sv_client_id s = cid) ss = [] then None
      else Some (Max (set (map (\<lambda>s. date_of (sv_created_at s))
             (filter (\<lambda>s. sv_client_id s = cid) ss)))))"
  by (simp add: last_created_date_def sql_max_Max)

lemma stats_consistent_iff:
  "stats_consistent d =
     list_all (\<lambda>c. cl_total_spent c = paid_total (cl_id c) (services d)
                  \<and> cl_last_service_date c = last_created_date (cl_id c) (services d))
       (clients d)"
  unfolding stats_consistent_def paid_total_sum last_created_date_Max
  by (rule refl)

lemma paid_rows_of_client:
  "filter (\<lambda>s. sv_client_id s = c \<and> sv_status s = Some ''paid'') xs
   = filter (\<lambda>s. sv_status s = Some ''paid'') (filter (\<lambda>s. sv_client_id s = c) xs)"
  by (simp add: conj_commute)

lemma stats_of_client_rows:
  assumes "filter (\<lambda>s. sv_client_id s = c) ss' = filter (\<lambda>s. sv_client_id s = c) ss"
  shows "paid_total c ss' = paid_total c ss"
    and "last_created_date c ss' = last_created_date c ss"
  unfolding paid_total_def last_created_date_def paid_rows_of_client assms
  by (rule refl)+

lemma update_client_stats_result:
  assumes "update_client_stats now NEW OLD d = Inr d'"
    and "coalesce_null (map_option sv_client_id NEW) (map_option sv_client_id OLD) = Some cid"
  shows "services d' = services d"
    and "clients d' =
           map (\<lambda>c. if cl_id c = cid
                     then c\<lparr>cl_total_spent := paid_total cid (services d),
                            cl_last_service_date := last_created_date cid (services d),
                            cl_updated_at := now\<rparr>
                     else c) (clients d)"
  using assms
  by (auto simp: update_client_stats_def split: if_splits)

lemma update_client_stats_consistent:
  assumes run: "update_client_stats now NEW OLD d = Inr d'"
    and cid: "coalesce_null (map_option sv_client_id NEW) (map_option sv_client_id OLD) = Some cid"
    and others: "\<And>c. c \<in> set (clients d) \<Longrightarrow> cl_id c \<noteq> cid \<Longrightarrow>
        cl_total_spent c = paid_total (cl_id c) (services d)
        \<and> cl_last_service_date c = last_created_date (cl_id c) (services d)"
  shows "stats_consistent d'"
  unfolding stats_consistent_iff list_all_iff
proof (intro ballI)
  fix c' assume "c' \<in> set (clients d')"
  then obtain c where c: "c \<in> set (clients d)"
    and c': "c' = (if cl_id c = cid
                   then c\<lparr>cl_total_spent := paid_total cid (services d),
                          cl_last_service_date := last_created_date cid (services d),
                          cl_updated_at := now\<rparr>
                   else c)"
    unfolding update_client_stats_result(2) [OF run cid] by (auto simp only: set_map)
  show "cl_total_spent c' = paid_total (cl_id c') (services d')
        \<and> cl_last_service_date c' = last_created_date (cl_id c') (services d')"
  proof (cases "cl_id c = cid")
    case True
    with c' show ?thesis
      by (simp add: update_client_stats_result(1) [OF run cid])
  next
    case False
    with c' others [OF c] show ?thesis
      by (simp add: update_client_stats_result(1) [OF run cid])
  qed
qed

lemma stats_consistentD:
  assumes "stats_consistent d" and "c \<in> set (clients d)"
  shows "cl_total_spent c = paid_total (cl_id c) (services d)"
    and "cl_last_service_date c = last_created_date (cl_id c) (services d)"
  using assms by (simp_all add: stats_consistent_iff list_all_iff)

lemma insert_service_keeps_stats:
  assumes ok: "stats_consistent d" and pk: "services_pk d"
    and run: "insert_service auth g t p d = Inr (row, d')"
  shows "stats_consistent d' \<and> services_pk d'"
proof -
  let ?mid = "d\<lparr>services := services d @ [row]\<rparr>"
  from run have trig: "update_client_stats t (Some row) None ?mid = Inr d'"
    and fresh: "sv_id row = g" "g \<notin> sv_id ` set (services d)"
    by (auto simp: insert_service_def Let_def split: if_splits option.splits sum.splits)
  have cid: "coalesce_null (map_option sv_client_id (Some row)) (map_option sv_client_id None)
             = Some (sv_client_id row)"
    by (simp add: coalesce_null_def)
  have "stats_consistent d'"
  proof (rule update_client_stats_consistent [OF trig cid])
    fix c assume c: "c \<in> set (clients ?mid)" and other: "cl_id c \<noteq> sv_client_id row"
    from other have "filter (\<lambda>s. sv_client_id s = cl_id c) (services ?mid)
                     = filter (\<lambda>s. sv_client_id s = cl_id c) (services d)"
      by auto
    from stats_of_client_rows [OF this] stats_consistentD [OF ok, of c] c
    show "cl_total_spent c = paid_total (cl_id c) (services ?mid)
          \<and> cl_last_service_date c = last_created_date (cl_id c) (services ?mid)"
      by simp
  qed
  moreover from pk fresh have "services_pk d'"
    by (simp add: services_pk_def update_client_stats_result(1) [OF trig cid])
  ultimately show ?thesis ..
qed

lemma visible_is_old:
  assumes pk: "services_pk d"
    and old: "find (visible_service auth sid) (services d) = Some old"
    and s: "s \<in> set (services d)" and vis: "visible_service auth sid s"
  shows "s = old"
proof -
  from find_SomeD [OF old] have "old \<in> set (services d)" and "sv_id old = sid"
    by (simp_all add: visible_service_def)
  moreover from vis have "sv_id s = sid"
    by (simp add: visible_service_def)
  moreover from pk have "inj_on sv_id (set (services d))"
    by (simp add: services_pk_def distinct_map)
  ultimately show ?thesis
    using s by (auto dest: inj_onD)
qed

lemma delete_service_keeps_stats:
  assumes ok: "stats_consistent d" and pk: "services_pk d"
    and run: "delete_service auth now sid d = Inr d'"
  shows "stats_consistent d' \<and> services_pk d'"
proof (cases "find (visible_service auth sid) (services d)")
  case None
  with run ok pk show ?thesis
    by (simp add: delete_service_def)
next
  case (Some old)
  let ?mid = "d\<lparr>services := filter (\<lambda>s. \<not> visible_service auth sid s) (services d)\<rparr>"
  from run Some have trig: "update_client_stats now None (Some old) ?mid = Inr d'"
    by (simp add: delete_service_def)
  have cid: "coalesce_null (map_option sv_client_id None) (map_option sv_client_id (Some old))
             = Some (sv_client_id old)"
    by (simp add: coalesce_null_def)
  have "stats_consistent d'"
  proof (rule update_client_stats_consistent [OF trig cid])
    fix c assume c: "c \<in> set (clients ?mid)" and other: "cl_id c \<noteq> sv_client_id old"
    have "filter (\<lambda>s. sv_client_id s = cl_id c) (services ?mid)
          = filter (\<lambda>s. sv_client_id s = cl_id c) (services d)"
      using visible_is_old [OF pk Some] other
      by (auto intro!: filter_cong)
    from stats_of_client_rows [OF this] stats_consistentD [OF ok, of c] c
    show "cl_total_spent c = paid_total (cl_id c) (services ?mid)
          \<and> cl_last_service_date c = last_created_date (cl_id c) (services ?mid)"
      by simp
  qed
  moreover from pk have "services_pk d'"
    by (simp add: services_pk_def update_client_stats_result(1) [OF trig cid]
        distinct_map_filter)
  ultimately show ?thesis ..
qed

lemma filter_map_unchanged:
  assumes "\<forall>x\<in>set xs. f x = x \<or> (\<not> P x \<and> \<not> P (f x))"
  shows "filter P (map f xs) = filter P xs"
  using assms
proof (induction xs)
  case Nil
  then show ?case by simp
next
  case (Cons a xs)
  then have "f a = a \<or> (\<not> P a \<and> \<not> P (f a))" and "filter P (map f xs) = filter P xs"
    by simp_all
  then show ?case
    by auto
qed

lemma update_service_keeps_stats:
  assumes ok: "stats_consistent d" and pk: "services_pk d"
    and keep: "upd_client_id p = None"
    and run: "update_service touch auth now sid p d = Inr d'"
  shows "stats_consistent d' \<and> services_pk d'"
proof (cases "find (visible_service auth sid) (services d)")
  case None
  with run ok pk show ?thesis
    by (simp add: update_service_def)
next
  case (Some old)
  let ?new = "old\<lparr>sv_client_id := coalesce (upd_client_id p) (sv_client_id old),
                  sv_client_name := coalesce (upd_client_name p) (sv_client_name old),
                  sv_description := coalesce (upd_description p) (sv_description old),
                  sv_value := coalesce (upd_value p) (sv_value old),
                  sv_status := coalesce (upd_status p) (sv_status old),
                  sv_updated_at := (if touch then now else sv_updated_at old)\<rparr>"
  let ?f = "\<lambda>s. if visible_service auth sid s then ?new else s"
  let ?mid = "d\<lparr>services := map ?f (services d)\<rparr>"
  from run Some have trig: "update_client_stats now (Some ?new) (Some old) ?mid = Inr d'"
    unfolding update_service_def Let_def
    by (simp split: if_splits del: if_weak_cong cong: if_cong)
  from keep have same: "sv_client_id ?new = sv_client_id old" "sv_id ?new = sv_id old"
    by (simp_all add: coalesce_def)
  have cid: "coalesce_null (map_option sv_client_id (Some ?new))
               (map_option sv_client_id (Some old)) = Some (sv_client_id old)"
    using same(1) by (simp add: coalesce_null_def)
  have stats: "stats_consistent d'"
  proof (rule update_client_stats_consistent [OF trig cid])
    fix c assume c: "c \<in> set (clients ?mid)" and other: "cl_id c \<noteq> sv_client_id old"
    have "filter (\<lambda>s. sv_client_id s = cl_id c) (map ?f (services d))
          = filter (\<lambda>s. sv_client_id s = cl_id c) (services d)"
    proof (rule filter_map_unchanged, rule ballI)
      fix s assume s: "s \<in> set (services d)"
      show "?f s = s \<or> (sv_client_id s \<noteq> cl_id c \<and> sv_client_id (?f s) \<noteq> cl_id c)"
      proof (cases "visible_service auth sid s")
        case True
        from visible_is_old [OF pk Some s True] have "s = old" .
        with True other same(1) show ?thesis
          by simp
      next
        case False
        then show ?thesis by simp
      qed
    qed
    then have "filter (\<lambda>s. sv_client_id s = cl_id c) (services ?mid)
          = filter (\<lambda>s. sv_client_id s = cl_id c) (services d)"
      by simp
    from stats_of_client_rows [OF this] stats_consistentD [OF ok, of c] c
    show "cl_total_spent c = paid_total (cl_id c) (services ?mid)
          \<and> cl_last_service_date c = last_created_date (cl_id c) (services ?mid)"
      by simp
  qed
  have ids: "map sv_id (map ?f (services d)) = map sv_id (services d)"
  proof (simp only: map_map, rule map_cong [OF refl])
    fix s assume s: "s \<in> set (services d)"
    show "(sv_id \<circ> ?f) s = sv_id s"
    proof (cases "visible_service auth sid s")
      case True
      from visible_is_old [OF pk Some s True] have "s = old" .
      with True same(2) show ?thesis
        by simp
    next
      case False
      then show ?thesis by simp
    qed
  qed
  have "services d' = map ?f (services d)"
    using update_client_stats_result(1) [OF trig cid] by simp
  then have "map sv_id (services d') = map sv_id (services d)"
    by (simp only: ids)
  with pk have "services_pk d'"
    by (simp only: services_pk_def)
  with stats show ?thesis ..
qed

lemma apply_service_op_keeps_stats:
  assumes "stats_consistent d" and "services_pk d" and "keeps_client_id op"
    and "apply_service_op op d = Inr d'"
  shows "stats_consistent d' \<and> services_pk d'"
proof (cases op)
  case (Insert auth new_id now p)
  with assms(4) obtain row where "insert_service auth new_id now p d = Inr (row, d')"
    by (cases "insert_service auth new_id now p d") auto
  from insert_service_keeps_stats [OF assms(1,2) this] show ?thesis .
next
  case (Update touch auth now sid p)
  with assms(3,4) have "upd_client_id p = None"
    and "update_service touch auth now sid p d = Inr d'"
    by simp_all
  from update_service_keeps_stats [OF assms(1,2) this] show ?thesis .
next
  case (Delete auth now sid)
  with assms(4) have "delete_service auth now sid d = Inr d'"
    by simp
  from delete_service_keeps_stats [OF assms(1,2) this] show ?thesis .
qed

lemma apply_service_ops_keep_stats:
  assumes "stats_consistent d" and "services_pk d" and "list_all keeps_client_id ops"
  shows "stats_consistent (apply_service_ops ops d) \<and> services_pk (apply_service_ops ops d)"
  using assms
proof (induction ops arbitrary: d)
  case Nil
  then show ?case by simp
next
  case (Cons op ops)
  then have keep: "keeps_client_id op" and rest: "list_all keeps_client_id ops"
    by simp_all
  show ?case
  proof (cases "apply_service_op op d")
    case (Inl e)
    with Cons.IH [OF Cons.prems(1,2) rest] show ?thesis
      by simp
  next
    case (Inr d')
    from apply_service_op_keeps_stats [OF Cons.prems(1,2) keep Inr]
    have "stats_consistent d'" and "services_pk d'"
      by simp_all
    from Cons.IH [OF this rest] Inr show ?thesis
      by simp
  qed
qed

subsection \<open>The zero state\<close>

text \<open>
  Where a client is at \<^verbatim>\<open>total_spent = 0\<close> and \<^verbatim>\<open>last_service_date\<close> NULL: when it is
  created (and a new counter is at \<^verbatim>\<open>total_pieces = 0\<close>), when it has no services in a
  database reached by statements that do not assign \<^verbatim>\<open>client_id\<close>, whenever the trigger
  runs for it while it has no services, and after its one remaining service is deleted.
\<close>

lemma created_client_is_zero:
  "get_or_create_client LOWER g t A N d
      = (Inr i, d1) \<and> i \<notin> cl_id ` set (clients d) \<longrightarrow>
     (\<exists>c. clients d1 = clients d @ [c] \<and> cl_id c = i
          \<and> cl_total_spent c = 0 \<and> cl_last_service_date c = None)"
proof
  assume "get_or_create_client LOWER g t A N d
      = (Inr i, d1) \<and> i \<notin> cl_id ` set (clients d)"
  then have "get_or_create_client LOWER g t A N d
      = (Inr i, d1)" and "i \<notin> cl_id ` set (clients d)"
    by simp_all
  from get_or_create_client_new [OF this]
  show "\<exists>c. clients d1 = clients d @ [c] \<and> cl_id c = i
           \<and> cl_total_spent c = 0 \<and> cl_last_service_date c = None"
    by simp
qed

lemma created_counter_is_zero:
  "get_or_create_piece_counter g t A C N d = (Inr K, d1)
     \<and> K \<notin> pc_id ` set (piece_counters d) \<longrightarrow>
   (\<exists>k. piece_counters d1 = piece_counters d @ [k] \<and> pc_id k = K \<and> pc_total_pieces k = 0)"
proof
  assume "get_or_create_piece_counter g t A C N d = (Inr K, d1)
        \<and> K \<notin> pc_id ` set (piece_counters d)"
  then have "get_or_create_piece_counter g t A C N d = (Inr K, d1)"
    and "K \<notin> pc_id ` set (piece_counters d)"
    by simp_all
  from get_or_create_piece_counter_new(1) [OF this]
  show "\<exists>k. piece_counters d1 = piece_counters d @ [k] \<and> pc_id k = K
           \<and> pc_total_pieces k = 0"
    by simp
qed

lemma client_without_services_is_zero:
  "stats_consistent d \<and> services_pk d \<and> list_all keeps_client_id ops
     \<and> c \<in> set (clients (apply_service_ops ops d))
     \<and> filter (\<lambda>s. sv_client_id s = cl_id c) (services (apply_service_ops ops d)) = [] \<longrightarrow>
   cl_total_spent c = 0 \<and> cl_last_service_date c = None"
proof
  let ?d' = "apply_service_ops ops d"
  assume a: "stats_consistent d \<and> services_pk d \<and> list_all keeps_client_id ops
     \<and> c \<in> set (clients ?d')
     \<and> filter (\<lambda>s. sv_client_id s = cl_id c) (services ?d') = []"
  then have "stats_consistent d" and "services_pk d" and "list_all keeps_client_id ops"
    by simp_all
  from apply_service_ops_keep_stats [OF this] have ok: "stats_consistent ?d'"
    by simp
  from a have c: "c \<in> set (clients ?d')"
    and none: "filter (\<lambda>s. sv_client_id s = cl_id c) (services ?d') = []"
    by simp_all
  from stats_consistentD [OF ok c] no_services_zero [OF none]
  show "cl_total_spent c = 0 \<and> cl_last_service_date c = None"
    by simp
qed

lemma trigger_without_services_is_zero:
  "coalesce_null (map_option sv_client_id NEW) (map_option sv_client_id OLD) = Some cid
     \<and> filter (\<lambda>s. sv_client_id s = cid) (services d) = [] \<longrightarrow>
   (\<exists>d'. update_client_stats now NEW OLD d = Inr d'
        \<and> (\<forall>c\<in>set (clients d'). cl_id c = cid \<longrightarrow>
              cl_total_spent c = 0 \<and> cl_last_service_date c = None))"
proof
  assume "coalesce_null (map_option sv_client_id NEW) (map_option sv_client_id OLD) = Some cid
        \<and> filter (\<lambda>s. sv_client_id s = cid) (services d) = []"
  then have "coalesce_null (map_option sv_client_id NEW) (map_option sv_client_id OLD) = Some cid"
    and "filter (\<lambda>s. sv_client_id s = cid) (services d) = []"
    by simp_all
  from update_client_stats_no_services [OF this, of now]
  obtain d' where "update_client_stats now NEW OLD d = Inr d'"
    and "\<forall>c\<in>set (clients d'). cl_id c = cid \<longrightarrow>
           cl_total_spent c = 0 \<and> cl_last_service_date c = None"
    by (elim exE conjE)
  then show "\<exists>d'. update_client_stats now NEW OLD d = Inr d'
           \<and> (\<forall>c\<in>set (clients d'). cl_id c = cid \<longrightarrow>
                 cl_total_spent c = 0 \<and> cl_last_service_date c = None)"
    by (intro exI conjI)
qed

lemma deleting_last_service_is_zero:
  "find (visible_service auth sid) (services d) = Some old
     \<and> filter (\<lambda>s. sv_client_id s = sv_client_id old) (services d) = [old] \<longrightarrow>
   (\<exists>d'. delete_service auth now sid d = Inr d'
        \<and> filter (\<lambda>s. sv_client_id s = sv_client_id old) (services d') = []
        \<and> (\<forall>c\<in>set (clients d'). cl_id c = sv_client_id old \<longrightarrow>
              cl_total_spent c = 0 \<and> cl_last_service_date c = None))"
proof
  assume "find (visible_service auth sid) (services d) = Some old
        \<and> filter (\<lambda>s. sv_client_id s = sv_client_id old) (services d) = [old]"
  then have "find (visible_service auth sid) (services d) = Some old"
    and "filter (\<lambda>s. sv_client_id s = sv_client_id old) (services d) = [old]"
    by simp_all
  then show "\<exists>d'. delete_service auth now sid d = Inr d'
           \<and> filter (\<lambda>s. sv_client_id s = sv_client_id old) (services d') = []
           \<and> (\<forall>c\<in>set (clients d'). cl_id c = sv_client_id old \<longrightarrow>
                 cl_total_spent c = 0 \<and> cl_last_service_date c = None)"
    by (rule delete_last_service)
qed

subsection \<open>What it does not keep\<close>

text \<open>
  Claim C1, at an input where the code departs from it. \<open>createService\<close> stores a paid
  service of 120.00 for ``Ana'' (client 10), and the statistics of both clients agree with
  their services. Then the service is moved to ``Maria'' (client 11) by an update of
  \<^verbatim>\<open>client_id\<close>. The trigger recomputes client 11 only: client 10 keeps
  \<^verbatim>\<open>total_spent = 120.00\<close> and its last service date although it has no service left,
  for which the recomputation gives 0 and NULL.
\<close>

theorem moved_service_leaves_old_client_stale:
  "createService ascii_lower (Some 1) 12 20 190000 200000 sd_ana db_ana_maria
      = (Inr sv_vestido, db_vestido)
   \<and> stats_consistent db_vestido
   \<and> update_service True (Some 1) 300000 20 set_client_11 db_vestido = Inr db_moved
   \<and> \<not> stats_consistent db_moved
   \<and> filter (\<lambda>s. sv_client_id s = 10) (services db_moved) = []
   \<and> map cl_total_spent (filter (\<lambda>c. cl_id c = 10) (clients db_moved)) = [12000]
   \<and> map cl_last_service_date (filter (\<lambda>c. cl_id c = 10) (clients db_moved)) = [Some 2]
   \<and> paid_total 10 (services db_moved) = 0
   \<and> last_created_date 10 (services db_moved) = None"
proof -
  have created: "createService ascii_lower (Some 1) 12 20 190000 200000 sd_ana db_ana_maria
                 = (Inr sv_vestido, db_vestido)"
    by (simp add: service_eval db_ana_maria_def db0_def sd_ana_def sv_vestido_def
        db_vestido_def)
  have before: "stats_consistent db_vestido"
    by (simp add: stats_consistent_iff service_eval db_vestido_def db0_def sv_vestido_def)
  have moved: "update_service True (Some 1) 300000 20 set_client_11 db_vestido = Inr db_moved"
    by (simp add: service_eval set_client_11_def db_vestido_def db_moved_def db0_def
        sv_vestido_def)
  have after: "\<not> stats_consistent db_moved"
    by (simp add: stats_consistent_iff service_eval db_moved_def db0_def sv_vestido_def)
  have rows: "filter (\<lambda>s. sv_client_id s = 10) (services db_moved) = []
    \<and> map cl_total_spent (filter (\<lambda>c. cl_id c = 10) (clients db_moved)) = [12000]
    \<and> map cl_last_service_date (filter (\<lambda>c. cl_id c = 10) (clients db_moved)) = [Some 2]"
    by (simp add: db_moved_def db0_def sv_vestido_def)
  have recomputed: "paid_total 10 (services db_moved) = 0
    \<and> last_created_date 10 (services db_moved) = None"
    by (simp add: service_eval db_moved_def db0_def sv_vestido_def)
  from created before moved after rows recomputed show ?thesis
    by simp
qed

text \<open>
  Claim C6, at an input where the code departs from it. In \<open>db_vestido\<close> the statistics of
  both clients agree with their services. Deleting the only service of ``Ana'' resets her
  row to 0 and NULL. Moving that service to ``Maria'' by an update of \<^verbatim>\<open>client_id\<close>
  instead also leaves ``Ana'' with no services, but her row keeps \<^verbatim>\<open>total_spent = 120.00\<close>
  and the last service date: a client with zero services that is not in the zero state.
\<close>

theorem emptied_client_is_not_reset:
  "stats_consistent db_vestido
   \<and> cl_ana_emptied \<in> set (clients (apply_service_ops [Delete (Some 1) 500000 20] db_vestido))
   \<and> cl_total_spent cl_ana_emptied = 0 \<and> cl_last_service_date cl_ana_emptied = None
   \<and> apply_service_ops [Update True (Some 1) 300000 20 set_client_11] db_vestido = db_moved
   \<and> filter (\<lambda>s. sv_client_id s = 10) (services db_moved) = []
   \<and> map (\<lambda>c. (cl_total_spent c, cl_last_service_date c))
         (filter (\<lambda>c. cl_id c = 10) (clients db_moved)) = [(12000, Some 2)]"
proof -
  have before: "stats_consistent db_vestido"
    by (simp add: stats_consistent_iff service_eval db_vestido_def db0_def sv_vestido_def)
  have deleted: "cl_ana_emptied
      \<in> set (clients (apply_service_ops [Delete (Some 1) 500000 20] db_vestido))"
    by (simp add: delete_service_def service_eval db_vestido_def db0_def sv_vestido_def
        cl_ana_emptied_def)
  have zero: "cl_total_spent cl_ana_emptied = 0 \<and> cl_last_service_date cl_ana_emptied = None"
    by (simp add: cl_ana_emptied_def)
  have moved: "apply_service_ops [Update True (Some 1) 300000 20 set_client_11] db_vestido
               = db_moved"
    by (simp add: service_eval set_client_11_def db_vestido_def db_moved_def db0_def
        sv_vestido_def)
  have rows: "filter (\<lambda>s. sv_client_id s = 10) (services db_moved) = []
    \<and> map (\<lambda>c. (cl_total_spent c, cl_last_service_date c))
         (filter (\<lambda>c. cl_id c = 10) (clients db_moved)) = [(12000, Some 2)]"
    by (simp add: db_moved_def db0_def sv_vestido_def)
  from before deleted zero moved rows show ?thesis
    by simp
qed

section \<open>Properties of the services table\<close>

lemma insert_service_rejects_invalid_status:
  assumes "ins_status p = Given s"
    and "s \<noteq> ''progress''" and "s \<noteq> ''delivered''" and "s \<noteq> ''paid''"
  shows "\<exists>e. insert_service auth g t p d = Inl e"
  using assms
  by (simp add: insert_service_def status_check_def Let_def split: option.splits)

lemma insert_service_rejects_missing_column:
  assumes "ins_user_id p = None \<or> ins_client_id p = None \<or> ins_client_name p = None
           \<or> ins_description p = None \<or> ins_value p = None"
  shows "\<exists>e. insert_service auth g t p d = Inl e"
  using assms
  by (auto simp: insert_service_def split: option.splits)

text \<open>
  Claim C7, at an input where the code departs from it. A service with the value -50.00
  is accepted by the \<^verbatim>\<open>services\<close> table the application writes to, directly and through
  \<open>createService\<close>: the row is stored and the client's \<^verbatim>\<open>total_spent\<close> becomes -50.00.
  The \<^verbatim>\<open>CHECK (value >= 0)\<close> of the other schema file would have rejected it.
\<close>

theorem negative_value_is_stored:
  "\<not> pro_schema_value_check (sv_value sv_negative)
   \<and> sv_value sv_negative < 0
   \<and> insert_service (Some 1) 21 400 negative_payload db_ana = Inr (sv_negative, db_negative)
   \<and> createService ascii_lower (Some 1) 12 21 390 400 sd_negative db_ana
       = (Inr sv_negative, db_negative)
   \<and> services db_negative = [sv_negative]
   \<and> map cl_total_spent (clients db_negative) = [- 5000]"
proof -
  have row: "\<not> pro_schema_value_check (sv_value sv_negative) \<and> sv_value sv_negative < 0"
    by (simp add: pro_schema_value_check_def sv_negative_def)
  have ins: "insert_service (Some 1) 21 400 negative_payload db_ana
             = Inr (sv_negative, db_negative)"
    by (simp add: service_eval negative_payload_def sv_negative_def db_negative_def
        db_ana_def db0_def)
  have app: "createService ascii_lower (Some 1) 12 21 390 400 sd_negative db_ana
             = (Inr sv_negative, db_negative)"
    by (simp add: service_eval sd_negative_def sv_negative_def db_negative_def
        db_ana_def db0_def)
  have after: "services db_negative = [sv_negative]
               \<and> map cl_total_spent (clients db_negative) = [- 5000]"
    by (simp add: db_negative_def db0_def)
  from row ins app after show ?thesis
    by simp
qed

section \<open>Properties of the piece counter\<close>

lemma insert_history_step:
  assumes "insert_history auth g t p d = Inr (row, d')"
  shows "piece_counter_history d' = piece_counter_history d @ [row]"
    and "hin_counter_id p = Some (h_counter_id row)"
    and "hin_pieces_added p = Some (h_pieces_added row)"
    and "piece_counters d' =
           map (\<lambda>k. if pc_id k = h_counter_id row
                     then k\<lparr>pc_total_pieces := pc_total_pieces k + h_pieces_added row,
                            pc_updated_at := t\<rparr>
                     else k) (piece_counters d)"
  using assms
  by (auto simp: insert_history_def update_piece_counter_total_def Let_def
      split: if_splits option.splits sum.splits)

lemma total_pieces_after_update:
  "map pc_total_pieces (filter (\<lambda>k. pc_id k = K)
     (map (\<lambda>k. if pc_id k = c
               then k\<lparr>pc_total_pieces := pc_total_pieces k + n, pc_updated_at := t\<rparr>
               else k) ks))
   = map (\<lambda>x. x + (if c = K then n else 0))
       (map pc_total_pieces (filter (\<lambda>k. pc_id k = K) ks))"
  by (induction ks) auto

lemma select_total_pieces_step:
  assumes "insert_history auth g t p d = Inr (row, d')"
  shows "select_total_pieces K d' =
           map (\<lambda>x. x + (if h_counter_id row = K then h_pieces_added row else 0))
             (select_total_pieces K d)"
  unfolding select_total_pieces_def insert_history_step(4) [OF assms]
  by (rule total_pieces_after_update)

lemma recomputed_total_step:
  assumes "insert_history auth g t p d = Inr (row, d')"
  shows "recomputed_total K d' =
           recomputed_total K d + (if h_counter_id row = K then h_pieces_added row else 0)"
  by (simp add: recomputed_total_def insert_history_step(1) [OF assms])


lemma select_total_pieces_new:
  assumes "get_or_create_piece_counter g t A C N d = (Inr K, d1)"
    and "K \<notin> pc_id ` set (piece_counters d)"
  shows "select_total_pieces K d1 = [0]"
proof -
  from assms(2) have "filter (\<lambda>k. pc_id k = K) (piece_counters d) = []"
    by (auto simp: filter_empty_conv)
  then show ?thesis
    by (simp add: select_total_pieces_def get_or_create_piece_counter_new(1) [OF assms])
qed



lemma recomputed_total_new:
  assumes "history_fk d0"
    and "get_or_create_piece_counter g t A C N d0 = (Inr K, d1)"
    and "K \<notin> pc_id ` set (piece_counters d0)"
  shows "recomputed_total K d1 = 0"
proof -
  from assms(1,3) have "filter (\<lambda>h. h_counter_id h = K) (piece_counter_history d0) = []"
    by (auto simp: history_fk_def list_all_iff filter_empty_conv)
  then show ?thesis
    by (simp add: recomputed_total_def get_or_create_piece_counter_new(2) [OF assms(2,3)])
qed

lemma insert_history_each_keeps_agreement:
  assumes "select_total_pieces K d = [recomputed_total K d]"
  shows "select_total_pieces K (insert_history_each rs d)
         = [recomputed_total K (insert_history_each rs d)]"
  using assms
proof (induction rs arbitrary: d)
  case Nil
  then show ?case by simp
next
  case (Cons r rs)
  show ?case
  proof (cases "insert_history (rq_auth r) (rq_new_id r) (rq_now r) (rq_payload r) d")
    case (Inl e)
    with Cons show ?thesis by simp
  next
    case (Inr res)
    then obtain row d1 where
      step: "insert_history (rq_auth r) (rq_new_id r) (rq_now r) (rq_payload r) d = Inr (row, d1)"
      by (cases res) simp
    have "select_total_pieces K d1 = [recomputed_total K d1]"
      by (simp add: select_total_pieces_step [OF step] recomputed_total_step [OF step]
          Cons.prems)
    from Cons.IH [OF this] step show ?thesis by simp
  qed
qed

text \<open>
  Claim C5. The incremental update agrees with the recomputation from the ledger: starting
  from a counter freshly created in a database whose history rows all reference existing
  counters, after any sequence of insertion requests (for any counter, failing or not) the
  stored \<^verbatim>\<open>total_pieces\<close> equals the sum of \<^verbatim>\<open>pieces_added\<close> over the counter's
  history rows.
\<close>

theorem incremental_total_equals_recomputation:
  assumes "history_fk d0"
    and "get_or_create_piece_counter g t A C N d0 = (Inr K, d1)"
    and "K \<notin> pc_id ` set (piece_counters d0)"
  shows "select_total_pieces K (insert_history_each rs d1)
         = [recomputed_total K (insert_history_each rs d1)]"
proof (rule insert_history_each_keeps_agreement)
  show "select_total_pieces K d1 = [recomputed_total K d1]"
    by (simp add: select_total_pieces_new [OF assms(2,3)] recomputed_total_new [OF assms])
qed

theorem incremental_total_equals_recomputation_witness:
  "history_fk db_ana
   \<and> get_or_create_piece_counter 30 400 1 10 ''Ana'' db_ana = (Inr 30, db_counter)
   \<and> 30 \<notin> pc_id ` set (piece_counters db_ana)
   \<and> select_total_pieces 30
        (insert_history_each
           [add_pieces_request 40 500 10,
            (add_pieces_request 41 600 1)\<lparr>rq_auth := None\<rparr>,
            add_pieces_request 42 700 (- 3)] db_counter) = [7]
   \<and> recomputed_total 30
        (insert_history_each
           [add_pieces_request 40 500 10,
            (add_pieces_request 41 600 1)\<lparr>rq_auth := None\<rparr>,
            add_pieces_request 42 700 (- 3)] db_counter) = 7"
proof -
  let ?rs = "[add_pieces_request 40 500 10,
            (add_pieces_request 41 600 1)\<lparr>rq_auth := None\<rparr>,
            add_pieces_request 42 700 (- 3)]"
  have fk: "history_fk db_ana"
    by (simp add: history_fk_def db_ana_def db0_def)
  have ledger: "recomputed_total 30 (insert_history_each ?rs db_counter) = 7"
    by (simp add: recomputed_total_def history_eval)
  from incremental_total_equals_recomputation [OF fk db_counter_created, of ?rs] ledger
  have "select_total_pieces 30 (insert_history_each ?rs db_counter) = [7]"
    by simp
  with fk db_counter_created ledger show ?thesis
    by blast
qed

section \<open>Properties of the application's calls\<close>

text \<open>
  Claim C8. Without an authenticated user, \<open>createService\<close> and \<open>addPiecesToCounter\<close> fail
  with the error ``User not authenticated'' and return the database exactly as they found
  it: no client, service, counter or history row is written.
\<close>

theorem unauthenticated_calls_write_nothing:
  "createService LOWER None g1 g2 t1 t2 serviceData d = (Inl NotAuthenticated, d)
   \<and> addPiecesToCounter LOWER None g1 g2 g3 t1 t2 t3 data d = (Inl NotAuthenticated, d)"
  by (simp add: createService_def addPiecesToCounter_def)

lemma insert_service_row:
  assumes "insert_service auth g t p d = Inr (row, d')"
  shows "ins_client_name p = Some (sv_client_name row)
         \<and> ins_client_id p = Some (sv_client_id row)
         \<and> services d' = services d @ [row]"
  using assms
  by (auto simp: insert_service_def update_client_stats_def coalesce_null_def Let_def
      split: if_splits option.splits sum.splits)

text \<open>
  Claim C10. The service row \<open>createService\<close> stores carries the caller's client name as it
  was given, whatever the name on the client row that \<open>get_or_create_client\<close> resolved; so
  the two names can differ in case (the example after the theorem: a service named ``ana''
  for the client stored as ``Ana'').
\<close>

theorem createService_client_name_verbatim:
  assumes "createService LOWER user g1 g2 t1 t2 serviceData d = (Inr row, d')"
  shows "sv_client_name row = sd_client_name serviceData
         \<and> services d' = services d @ [row]"
proof -
  from assms obtain uid where u: "user = Some uid"
    by (cases user) (auto simp: createService_def)
  from assms u obtain clientId d1 where
    c: "get_or_create_client LOWER g1 t1 uid (sd_client_name serviceData) d = (Inr clientId, d1)"
    by (auto simp: createService_def split: prod.splits sum.splits)
  have s1: "services d1 = services d"
    using c by (auto simp: get_or_create_client_def insert_client_def
        split: option.splits if_splits)
  from assms u c have
    "insert_service (Some uid) g2 t2
       \<lparr>ins_user_id = Some uid, ins_client_id = Some clientId,
        ins_client_name = Some (sd_client_name serviceData),
        ins_description = Some (sd_description serviceData),
        ins_value = Some (sd_value serviceData),
        ins_delivery_date = sd_delivery_date serviceData,
        ins_status = Given (status_text (sd_status serviceData))\<rparr> d1 = Inr (row, d')"
    by (auto simp: createService_def split: sum.splits)
  from insert_service_row [OF this] s1 show ?thesis by simp
qed

theorem createService_client_name_verbatim_witness:
  "createService ascii_lower (Some 1) 11 20 200 300 sd_ana_lower db_ana
      = (Inr sv_ana_lower, db_ana_paid)
   \<and> sv_client_name sv_ana_lower = sd_client_name sd_ana_lower
   \<and> services db_ana_paid = services db_ana @ [sv_ana_lower]
   \<and> sv_client_name sv_ana_lower = ''ana''
   \<and> map cl_name (filter (\<lambda>c. cl_id c = sv_client_id sv_ana_lower) (clients db_ana_paid))
       = [''Ana'']"
proof -
  have run: "createService ascii_lower (Some 1) 11 20 200 300 sd_ana_lower db_ana
             = (Inr sv_ana_lower, db_ana_paid)"
    by (simp add: createService_def get_or_create_client_def insert_service_def
        update_client_stats_def paid_total_def last_created_date_def sql_sum_def
        coalesce_def coalesce_null_def date_of_def decimal_10_2_ok_def status_check_def
        db_ana_def db0_def sd_ana_lower_def sv_ana_lower_def db_ana_paid_def LOWER_Ana
        Let_def)
  have names: "sv_client_name sv_ana_lower = ''ana''
    \<and> map cl_name (filter (\<lambda>c. cl_id c = sv_client_id sv_ana_lower) (clients db_ana_paid))
        = [''Ana'']"
    by (simp add: sv_ana_lower_def db_ana_paid_def)
  from createService_client_name_verbatim [OF run] run names show ?thesis
    by blast
qed

text \<open>
  Claim C9. \<open>updateClientFavorite\<close> never fails and writes only \<^verbatim>\<open>is_favorite\<close> (and
  \<^verbatim>\<open>updated_at\<close>) of the client with the given identifier: every other table is
  unchanged, the clients table keeps its rows in place, every row keeps its identifier,
  owner, name, phone, email, notes, total spent, last service date and creation time, and a
  row with another identifier is unchanged altogether. The row with the identifier, when
  the caller owns it, gets the new flag.
\<close>

theorem updateClientFavorite_frame:
  assumes "updateClientFavorite touch auth now clientId isFavorite d = (r, d')"
  shows "r = Inr ()
     \<and> users d' = users d \<and> services d' = services d
     \<and> piece_counters d' = piece_counters d
     \<and> piece_counter_history d' = piece_counter_history d
     \<and> length (clients d') = length (clients d)
     \<and> (\<forall>i < length (clients d).
           cl_id (clients d' ! i) = cl_id (clients d ! i)
           \<and> cl_user_id (clients d' ! i) = cl_user_id (clients d ! i)
           \<and> cl_name (clients d' ! i) = cl_name (clients d ! i)
           \<and> cl_phone (clients d' ! i) = cl_phone (clients d ! i)
           \<and> cl_email (clients d' ! i) = cl_email (clients d ! i)
           \<and> cl_notes (clients d' ! i) = cl_notes (clients d ! i)
           \<and> cl_total_spent (clients d' ! i) = cl_total_spent (clients d ! i)
           \<and> cl_last_service_date (clients d' ! i) = cl_last_service_date (clients d ! i)
           \<and> cl_created_at (clients d' ! i) = cl_created_at (clients d ! i)
           \<and> (cl_id (clients d ! i) \<noteq> clientId \<longrightarrow> clients d' ! i = clients d ! i)
           \<and> (cl_id (clients d ! i) = clientId \<and> Some (cl_user_id (clients d ! i)) = auth
                \<longrightarrow> cl_is_favorite (clients d' ! i) = isFavorite))"
proof -
  from assms have r: "r = Inr ()" and d': "d' = d\<lparr>clients :=
          map (\<lambda>c. if cl_id c = clientId \<and> Some (cl_user_id c) = auth
                    then c\<lparr>cl_is_favorite := isFavorite,
                           cl_updated_at := (if touch then now else cl_updated_at c)\<rparr>
                    else c) (clients d)\<rparr>"
    by (simp_all add: updateClientFavorite_def)
  show ?thesis
    unfolding d' r by simp
qed

theorem updateClientFavorite_frame_witness:
  "updateClientFavorite True (Some 1) 400000 10 True db_vestido = (Inr (), db_favorite)
   \<and> services db_favorite = services db_vestido
   \<and> length (clients db_favorite) = length (clients db_vestido)
   \<and> 0 < length (clients db_vestido)
   \<and> cl_id (clients db_vestido ! 0) = 10
   \<and> Some (cl_user_id (clients db_vestido ! 0)) = Some 1
   \<and> cl_is_favorite (clients db_favorite ! 0) = True
   \<and> cl_name (clients db_favorite ! 0) = cl_name (clients db_vestido ! 0)
   \<and> cl_total_spent (clients db_favorite ! 0) = cl_total_spent (clients db_vestido ! 0)
   \<and> cl_last_service_date (clients db_favorite ! 0)
       = cl_last_service_date (clients db_vestido ! 0)
   \<and> 1 < length (clients db_vestido)
   \<and> cl_id (clients db_vestido ! 1) \<noteq> 10
   \<and> clients db_favorite ! 1 = clients db_vestido ! 1"
proof -
  have run: "updateClientFavorite True (Some 1) 400000 10 True db_vestido
             = (Inr (), db_favorite)"
    by (simp add: updateClientFavorite_def db_vestido_def db_favorite_def db0_def)
  have pre: "0 < length (clients db_vestido)"
    "cl_id (clients db_vestido ! 0) = 10"
    "Some (cl_user_id (clients db_vestido ! 0)) = Some 1"
    "1 < length (clients db_vestido)"
    "cl_id (clients db_vestido ! 1) \<noteq> 10"
    by (simp_all add: db_vestido_def)
  note frame = updateClientFavorite_frame [OF run]
  from frame have tables: "services db_favorite = services db_vestido
    \<and> length (clients db_favorite) = length (clients db_vestido)"
    by simp
  from frame pre(1,2,3) have first: "cl_is_favorite (clients db_favorite ! 0) = True
    \<and> cl_name (clients db_favorite ! 0) = cl_name (clients db_vestido ! 0)
    \<and> cl_total_spent (clients db_favorite ! 0) = cl_total_spent (clients db_vestido ! 0)
    \<and> cl_last_service_date (clients db_favorite ! 0)
        = cl_last_service_date (clients db_vestido ! 0)"
    by blast
  from frame pre(4,5) have second: "clients db_favorite ! 1 = clients db_vestido ! 1"
    by blast
  from run tables pre first second show ?thesis
    by simp
qed

end
